theory Spec2Isabelle
  imports Main "HOL-Library.Sublist"
begin

section \<open>Exceptions, observable events and string formatting\<close>

text \<open>
  The fixtures of \<^verbatim>\<open>integration-tests/service_fixtures.py\<close> talk to three outside
  parties: the docker daemon, the text-generation HTTP client and the clock. Every call to
  one of them is an event of a trace, and what the call answers is an input of the model.
  The exceptions below are the ones that the fixtures raise themselves or tell apart in an
  \<^verbatim>\<open>except\<close> clause. \<open>OtherException\<close> stands for any other instance of Python's
  \<^verbatim>\<open>Exception\<close> class, with its message; \<open>BaseOnly\<close> for an exception that is a
  \<^verbatim>\<open>BaseException\<close> but no \<^verbatim>\<open>Exception\<close> (\<^verbatim>\<open>KeyboardInterrupt\<close>,
  \<^verbatim>\<open>SystemExit\<close>), which an \<^verbatim>\<open>except Exception\<close> clause lets through.
\<close>

datatype exc =
    AssertionError
  | RuntimeError string
  | NotFound
  | OtherException string
  | BaseOnly string

fun is_Exception :: "exc \<Rightarrow> bool" where
  "is_Exception (BaseOnly m) = False"
| "is_Exception e = True"

datatype event =
    ContainersGet string
  | Logs
  | Print string
  | Generate
  | Sleep
  | StaleStop
  | StaleWait
  | CopyTree string
  | Build string
  | Run string
  | Stop
  | Wait
  | RemoveContainer
  | RemoveImage
  | LogException exc
  | LogError

text \<open>Decimal rendering of a non-negative integer, as an f-string field \<^verbatim>\<open>{i}\<close> does.\<close>

definition digit_char :: "nat \<Rightarrow> char" where
  "digit_char d = ''0123456789'' ! d"

fun str_nat :: "nat \<Rightarrow> string" where
  "str_nat n = (if n < 10 then [digit_char n] else str_nat (n div 10) @ [digit_char (n mod 10)])"

declare str_nat.simps [simp del]

section \<open>The health check\<close>

text \<open>
  What one call of \<^verbatim>\<open>client.generate("test", max_new_tokens=1)\<close> does: it returns a
  response, raises one of the three connection errors that \<^verbatim>\<open>health\<close> retries, or
  raises any other exception.
\<close>

datatype gen_outcome =
    Returned
  | ClientConnectorError
  | ClientOSError
  | ServerDisconnectedError
  | OtherRaised exc

text \<open>
  What the world answers during iteration \<open>i\<close> of the loop: \<open>container\<close> is the answer
  of \<^verbatim>\<open>docker_client.containers.get\<close> (an exception, or the container's pending log
  output and its status), \<open>gen\<close> the answer of the readiness request.
\<close>

record poll =
  container :: "exc + (string \<times> string)"
  gen :: gen_outcome

text \<open>
  \<^verbatim>\<open>ContainerLauncherHandle._inner_health\<close>: fetch the container, read its logs, print
  them when they are not empty, and tell whether the status is one of
  \<^verbatim>\<open>["running", "created"]\<close>. An exception of \<^verbatim>\<open>containers.get\<close> is not caught.
\<close>

definition inner_health :: "string \<Rightarrow> poll \<Rightarrow> event list \<times> (exc + bool)" where
  "inner_health container_name p =
     (case container p of
        Inl e \<Rightarrow> ([ContainersGet container_name], Inl e)
      | Inr (container_output, status) \<Rightarrow>
          ([ContainersGet container_name, Logs]
             @ (if container_output \<noteq> [] then [Print container_output] else []),
           Inr (status \<in> set [''running'', ''created''])))"

text \<open>How one iteration of the \<^verbatim>\<open>for\<close> loop of \<^verbatim>\<open>health\<close> ends.\<close>

datatype control = Continue | Return | Raise exc

definition crashed_msg :: "nat \<Rightarrow> string" where
  "crashed_msg i = ''Service crashed after '' @ str_nat i @ '' seconds.''"

definition generation_failed_msg :: string where
  "generation_failed_msg = ''Basic generation failed with: {e}''"

definition failed_to_start_msg :: "nat \<Rightarrow> string" where
  "failed_to_start_msg i = ''Service failed to start after '' @ str_nat i @ '' seconds.''"

text \<open>
  The body of the loop at index \<open>i\<close>. The message of the last \<^verbatim>\<open>except\<close> clause is a
  plain string literal in the source (no \<^verbatim>\<open>f\<close> prefix, no \<^verbatim>\<open>as e\<close>), so it is the
  constant \<^const>\<open>generation_failed_msg\<close>. That clause is \<^verbatim>\<open>except Exception\<close>:
  an exception outside that class leaves \<^verbatim>\<open>health\<close> as it is.
\<close>

definition health_body :: "string \<Rightarrow> nat \<Rightarrow> poll \<Rightarrow> event list \<times> control" where
  "health_body container_name i p =
     (case inner_health container_name p of
        (evs, Inl e) \<Rightarrow> (evs, Raise e)
      | (evs, Inr alive) \<Rightarrow>
          if \<not> alive then (evs, Raise (RuntimeError (crashed_msg i)))
          else (case gen p of
                  Returned \<Rightarrow> (evs @ [Generate], Return)
                | ClientConnectorError \<Rightarrow> (evs @ [Generate, Sleep], Continue)
                | ClientOSError \<Rightarrow> (evs @ [Generate, Sleep], Continue)
                | ServerDisconnectedError \<Rightarrow> (evs @ [Generate, Sleep], Continue)
                | OtherRaised e \<Rightarrow>
                    if is_Exception e
                    then (evs @ [Generate], Raise (RuntimeError generation_failed_msg))
                    else (evs @ [Generate], Raise e)))"

text \<open>
  \<^verbatim>\<open>for i in range(timeout)\<close> over the list of indices; \<open>None\<close> means that the loop ran
  to its end without a \<^verbatim>\<open>return\<close> or a \<^verbatim>\<open>raise\<close>.
\<close>

fun health_for :: "string \<Rightarrow> (nat \<Rightarrow> poll) \<Rightarrow> nat list \<Rightarrow> event list \<times> (exc + unit) option" where
  "health_for container_name env [] = ([], None)"
| "health_for container_name env (i # is) =
     (case health_body container_name i (env i) of
        (evs, Return) \<Rightarrow> (evs, Some (Inr ()))
      | (evs, Raise e) \<Rightarrow> (evs, Some (Inl e))
      | (evs, Continue) \<Rightarrow>
          (case health_for container_name env is of (evs', r) \<Rightarrow> (evs @ evs', r)))"

text \<open>
  \<^verbatim>\<open>LauncherHandle.health\<close>: the assertion, the loop, and after the loop the error
  that names the last value of \<open>i\<close>, which is \<open>timeout - 1\<close> once the assertion has passed.
  Assertions are taken as checked, as they are when Python runs without \<^verbatim>\<open>-O\<close>.
\<close>

definition health :: "string \<Rightarrow> (nat \<Rightarrow> poll) \<Rightarrow> int \<Rightarrow> event list \<times> (exc + unit)" where
  "health container_name env timeout =
     (if \<not> timeout > 0 then ([], Inl AssertionError)
      else (case health_for container_name env [0..<nat timeout] of
              (evs, Some r) \<Rightarrow> (evs, r)
            | (evs, None) \<Rightarrow>
                (evs, Inl (RuntimeError (failed_to_start_msg (last [0..<nat timeout]))))))"

text \<open>The events of one iteration in which the container is alive and the request is retried.\<close>

definition retry_events :: "string \<Rightarrow> poll \<Rightarrow> event list" where
  "retry_events container_name p = fst (inner_health container_name p) @ [Generate, Sleep]"

definition is_alive :: "poll \<Rightarrow> bool" where
  "is_alive p = (case container p of Inl e \<Rightarrow> False
                 | Inr (out, status) \<Rightarrow> status = ''running'' \<or> status = ''created'')"

definition is_dead :: "poll \<Rightarrow> bool" where
  "is_dead p = (case container p of Inl e \<Rightarrow> False
                | Inr (out, status) \<Rightarrow> status \<noteq> ''running'' \<and> status \<noteq> ''created'')"

definition is_transient :: "poll \<Rightarrow> bool" where
  "is_transient p = (gen p = ClientConnectorError \<or> gen p = ClientOSError
                      \<or> gen p = ServerDisconnectedError)"

definition is_fatal :: "poll \<Rightarrow> bool" where
  "is_fatal p = (case gen p of OtherRaised e \<Rightarrow> is_Exception e | _ \<Rightarrow> False)"

section \<open>The draining of the container's logs\<close>

text \<open>
  \<^const>\<open>inner_health\<close> takes what \<^verbatim>\<open>container.logs\<close> answers as it comes. Where that
  answer comes from is the watermark \<^verbatim>\<open>self._log_since\<close>: set to \<^verbatim>\<open>time.time()\<close> by
  \<^verbatim>\<open>__init__\<close> (line 69), passed as \<^verbatim>\<open>since\<close> by each poll (line 73) and set to a new
  reading of \<^verbatim>\<open>time.time()\<close> right after (line 74). A line of the log is its time stamp
  and its text, instants being counted in ticks of the clock; the container writes the
  lines in the order of their stamps.
\<close>

type_synonym log_line = "nat \<times> string"

text \<open>
  Modelled from the spec: the runtime's \<^verbatim>\<open>container.logs(since) -> bytes\<close> (section 6),
  the log output accumulated since the given time. Answered at the instant \<open>answered\<close>,
  it holds, in the order written, the lines stamped from \<open>since\<close> on that are written by
  then.
\<close>

definition container_logs :: "log_line list \<Rightarrow> nat \<Rightarrow> nat \<Rightarrow> log_line list" where
  "container_logs written since answered =
     filter (\<lambda>line. since \<le> fst line \<and> fst line \<le> answered) written"

text \<open>
  Lines 73 and 74 of \<^verbatim>\<open>_inner_health\<close>, for a poll whose \<^verbatim>\<open>logs\<close> call is answered at
  \<open>answered\<close> and whose \<^verbatim>\<open>time.time()\<close> then reads \<open>now\<close>: the output and the new
  watermark.
\<close>

definition drain_logs :: "log_line list \<Rightarrow> nat \<Rightarrow> nat \<times> nat \<Rightarrow> log_line list \<times> nat" where
  "drain_logs written log_since p =
     (case p of (answered, now) \<Rightarrow> (container_logs written log_since answered, now))"

text \<open>What a sequence of polls prints, one output after the other.\<close>

fun drain_polls :: "log_line list \<Rightarrow> nat \<Rightarrow> (nat \<times> nat) list \<Rightarrow> log_line list" where
  "drain_polls written log_since [] = []"
| "drain_polls written log_since (p # ps) =
     (case drain_logs written log_since p of
        (container_output, log_since') \<Rightarrow>
          container_output @ drain_polls written log_since' ps)"

text \<open>
  Readings in the order of time: an answer of \<^verbatim>\<open>logs\<close> comes no earlier than the
  watermark it was asked with, and the reading of the clock that follows comes later.
\<close>

fun timeline :: "nat \<Rightarrow> (nat \<times> nat) list \<Rightarrow> bool" where
  "timeline log_since [] = True"
| "timeline log_since ((answered, now) # ps) =
     (log_since \<le> answered \<and> answered < now \<and> timeline now ps)"

text \<open>An instant between a watermark and the answer of the poll that uses it.\<close>

fun in_window :: "nat \<Rightarrow> (nat \<times> nat) list \<Rightarrow> nat \<Rightarrow> bool" where
  "in_window log_since [] t = False"
| "in_window log_since ((answered, now) # ps) t =
     ((log_since \<le> t \<and> t \<le> answered) \<or> in_window now ps t)"

section \<open>The docker launcher\<close>

text \<open>
  What \<^verbatim>\<open>docker_launcher\<close> reads from the process it runs in: the environment
  variables, the token that \<^verbatim>\<open>huggingface_hub.get_token()\<close> gave at import time, which
  paths are directories, and the port drawn by \<^verbatim>\<open>random.randint(8000, 10_000)\<close>.
\<close>

record host =
  environ :: "string \<rightharpoonup> string"
  HF_TOKEN :: "string option"
  isdir :: "string \<Rightarrow> bool"
  randint :: nat

text \<open>
  What the docker daemon answers to each call of \<^verbatim>\<open>docker_launcher\<close>: for a call
  that returns nothing of interest, the exception it raises if any; for
  \<^verbatim>\<open>images.build\<close> the identifier of the image, for \<^verbatim>\<open>containers.run\<close> the name of
  the container.
\<close>

record docker =
  stale_get_raises :: "exc option"
  stale_stop_raises :: "exc option"
  stale_wait_raises :: "exc option"
  copytree_raises :: "exc option"
  build_result :: "exc + string"
  run_result :: "exc + string"
  stop_raises :: "exc option"
  wait_raises :: "exc option"
  remove_raises :: "exc option"
  image_remove_raises :: "exc option"

definition OPTIMUM_CACHE_REPO_ID :: string where
  "OPTIMUM_CACHE_REPO_ID = ''optimum/neuron-testing-cache''"

text \<open>\<^verbatim>\<open>DOCKER_IMAGE = os.getenv("DOCKER_IMAGE", "neuronx-tgi:latest")\<close>\<close>

definition DOCKER_IMAGE :: "host \<Rightarrow> string" where
  "DOCKER_IMAGE h = (case environ h ''DOCKER_IMAGE'' of Some v \<Rightarrow> v | None \<Rightarrow> ''neuronx-tgi:latest'')"

definition container_name_of :: "string \<Rightarrow> nat \<Rightarrow> string" where
  "container_name_of service_name port = ''tgi-tests-'' @ service_name @ ''-'' @ str_nat port"

text \<open>
  The first \<^verbatim>\<open>try\<close> block: a container of the same name left by an earlier run is stopped
  and waited for; only \<^verbatim>\<open>NotFound\<close> is caught.
\<close>

definition except_NotFound :: "exc \<Rightarrow> exc option" where
  "except_NotFound e = (if e = NotFound then None else Some e)"

definition stale_cleanup :: "docker \<Rightarrow> string \<Rightarrow> event list \<times> exc option" where
  "stale_cleanup d container_name =
     (case stale_get_raises d of
        Some e \<Rightarrow> ([ContainersGet container_name], except_NotFound e)
      | None \<Rightarrow>
          (case stale_stop_raises d of
             Some e \<Rightarrow> ([ContainersGet container_name, StaleStop], except_NotFound e)
           | None \<Rightarrow>
               (case stale_wait_raises d of
                  Some e \<Rightarrow> ([ContainersGet container_name, StaleStop, StaleWait], except_NotFound e)
                | None \<Rightarrow> ([ContainersGet container_name, StaleStop, StaleWait], None))))"

text \<open>The environment handed to the container: a Python dict, built by three statements.\<close>

definition tuning_vars :: "string list" where
  "tuning_vars = [''HF_BATCH_SIZE'', ''HF_SEQUENCE_LENGTH'', ''HF_AUTO_CAST_TYPE'', ''HF_NUM_CORES'']"

definition forward_var :: "(string \<rightharpoonup> string) \<Rightarrow> (string \<rightharpoonup> string) \<Rightarrow> string \<Rightarrow> (string \<rightharpoonup> string)" where
  "forward_var os_environ env var =
     (case os_environ var of Some v \<Rightarrow> env(var \<mapsto> v) | None \<Rightarrow> env)"

definition compose_env :: "host \<Rightarrow> (string \<rightharpoonup> string)" where
  "compose_env h =
     (let env = [''LOG_LEVEL'' \<mapsto> ''info,text_generation_router=debug'',
                 ''CUSTOM_CACHE_REPO'' \<mapsto> OPTIMUM_CACHE_REPO_ID];
          env = (case HF_TOKEN h of
                   None \<Rightarrow> env
                 | Some token \<Rightarrow> env(''HUGGING_FACE_HUB_TOKEN'' \<mapsto> token, ''HF_TOKEN'' \<mapsto> token))
      in foldl (forward_var (environ h)) env tuning_vars)"

text \<open>
  The choice of the image: for a directory, a sub-image holding the model is built and tagged
  with the container's name followed by \<^verbatim>\<open>-img\<close>; otherwise the base image is used as
  it is. The result is \<^verbatim>\<open>(docker_tag, image, container_model_id)\<close>, with \<open>image\<close> the
  identifier of the built image, or \<open>None\<close> as in the source (the variable is written
  \<open>image'\<close> below, \<open>image\<close> being a constant of HOL).
\<close>

definition choose_image ::
  "host \<Rightarrow> docker \<Rightarrow> string \<Rightarrow> string \<Rightarrow> event list \<times> (exc + string \<times> string option \<times> string)" where
  "choose_image h d container_name model_name_or_path =
     (if isdir h model_name_or_path then
        (let docker_tag = container_name @ ''-img'' in
         case copytree_raises d of
           Some e \<Rightarrow> ([CopyTree model_name_or_path], Inl e)
         | None \<Rightarrow>
             (case build_result d of
                Inl e \<Rightarrow> ([CopyTree model_name_or_path, Build docker_tag], Inl e)
              | Inr image_id \<Rightarrow>
                  ([CopyTree model_name_or_path, Build docker_tag],
                   Inr (docker_tag, Some image_id, ''/data/'' @ model_name_or_path))))
      else ([], Inr (DOCKER_IMAGE h, None, model_name_or_path)))"

text \<open>
  The state of the generator of \<^verbatim>\<open>docker_launcher\<close> when it is suspended at its
  \<^verbatim>\<open>yield\<close>: the local variables (prefixed with \<open>st_\<close>), and the fields of the handle
  it yields.
\<close>

record launched =
  st_container_name :: string
  st_port :: nat
  st_env :: "string \<rightharpoonup> string"
  st_docker_tag :: string
  st_image :: "string option"
  st_container_model_id :: string
  st_args :: "string list"
  handle_container_name :: string
  handle_base_url :: string

text \<open>\<^verbatim>\<open>docker_launcher\<close> from its first statement to the \<^verbatim>\<open>yield\<close>.\<close>

definition docker_launcher_enter ::
  "host \<Rightarrow> docker \<Rightarrow> string \<Rightarrow> string \<Rightarrow> bool \<Rightarrow> event list \<times> (exc + launched)" where
  "docker_launcher_enter h d service_name model_name_or_path trust_remote_code =
     (let port = randint h;
          container_name = container_name_of service_name port
      in case stale_cleanup d container_name of
           (evs1, Some e) \<Rightarrow> (evs1, Inl e)
         | (evs1, None) \<Rightarrow>
             (let env = compose_env h
              in case choose_image h d container_name model_name_or_path of
                   (evs2, Inl e) \<Rightarrow> (evs1 @ evs2, Inl e)
                 | (evs2, Inr (docker_tag, image', container_model_id)) \<Rightarrow>
                     (let args = [''--model-id'', container_model_id, ''--env'']
                                   @ (if trust_remote_code then [''--trust-remote-code''] else [])
                      in case run_result d of
                           Inl e \<Rightarrow> (evs1 @ evs2 @ [Run docker_tag], Inl e)
                         | Inr name \<Rightarrow>
                             (evs1 @ evs2 @ [Run docker_tag],
                              Inr \<lparr>st_container_name = container_name, st_port = port, st_env = env,
                                   st_docker_tag = docker_tag, st_image = image',
                                   st_container_model_id = container_model_id, st_args = args,
                                   handle_container_name = name,
                                   handle_base_url = ''http://localhost:'' @ str_nat port\<rparr>))))"

text \<open>
  The statements after the \<^verbatim>\<open>yield\<close>. In the \<^verbatim>\<open>try\<close> block an exception of
  \<^verbatim>\<open>stop\<close> skips \<^verbatim>\<open>wait\<close>; an instance of \<^verbatim>\<open>Exception\<close> is logged by the
  \<^verbatim>\<open>except\<close> clause, any other exception is pending while the \<^verbatim>\<open>finally\<close> block
  runs and is raised again at its end, unless the block itself raises.
\<close>

definition stop_and_wait :: "docker \<Rightarrow> event list \<times> exc option" where
  "stop_and_wait d =
     (case stop_raises d of
        Some e \<Rightarrow> if is_Exception e then ([Stop, LogException e], None) else ([Stop], Some e)
      | None \<Rightarrow>
          (case wait_raises d of
             Some e \<Rightarrow> if is_Exception e then ([Stop, Wait, LogException e], None)
                       else ([Stop, Wait], Some e)
           | None \<Rightarrow> ([Stop, Wait], None)))"

definition remove_container :: "docker \<Rightarrow> event list \<times> exc option" where
  "remove_container d =
     (case remove_raises d of
        None \<Rightarrow> ([RemoveContainer], None)
      | Some e \<Rightarrow> if is_Exception e then ([RemoveContainer, LogError, LogException e], None)
                  else ([RemoveContainer], Some e))"

definition remove_image :: "docker \<Rightarrow> event list \<times> exc option" where
  "remove_image d =
     (case image_remove_raises d of
        None \<Rightarrow> ([RemoveImage], None)
      | Some e \<Rightarrow> if e = NotFound then ([RemoveImage], None)
                  else if is_Exception e then ([RemoveImage, LogError, LogException e], None)
                  else ([RemoveImage], Some e))"

definition teardown :: "docker \<Rightarrow> string option \<Rightarrow> event list \<times> exc option" where
  "teardown d image' =
     (case stop_and_wait d of
        (evs1, pending) \<Rightarrow>
          (case remove_container d of
             (evs2, Some e) \<Rightarrow> (evs1 @ evs2, Some e)
           | (evs2, None) \<Rightarrow>
               (case image' of
                  None \<Rightarrow> (evs1 @ evs2, pending)
                | Some image_id \<Rightarrow>
                    (case remove_image d of
                       (evs3, Some e) \<Rightarrow> (evs1 @ evs2 @ evs3, Some e)
                     | (evs3, None) \<Rightarrow> (evs1 @ evs2 @ evs3, pending)))))"

text \<open>
  How the generator is resumed by \<^verbatim>\<open>contextlib.contextmanager\<close> when the
  \<^verbatim>\<open>with\<close> block is left: \<^verbatim>\<open>next(gen)\<close> after a block that ended normally,
  \<^verbatim>\<open>gen.throw(e)\<close> after a block that raised \<open>e\<close>. The \<^verbatim>\<open>yield\<close> of
  \<^verbatim>\<open>docker_launcher\<close> stands outside every \<^verbatim>\<open>try\<close> statement, so a thrown exception
  leaves the generator at once and the statements after the \<^verbatim>\<open>yield\<close> are not reached.
\<close>

datatype resume = Next | Throw exc

definition docker_launcher_exit :: "docker \<Rightarrow> launched \<Rightarrow> resume \<Rightarrow> event list \<times> exc option" where
  "docker_launcher_exit d st r =
     (case r of
        Throw e \<Rightarrow> ([], Some e)
      | Next \<Rightarrow> teardown d (st_image st))"

text \<open>
  \<^verbatim>\<open>with docker_launcher(...) as handle: body\<close>, where \<open>body\<close> gives the events of the
  block and the exception it raises, if any.
\<close>

definition with_docker_launcher ::
  "host \<Rightarrow> docker \<Rightarrow> string \<Rightarrow> string \<Rightarrow> bool \<Rightarrow> (launched \<Rightarrow> event list \<times> exc option)
     \<Rightarrow> event list \<times> exc option" where
  "with_docker_launcher h d service_name model_name_or_path trust_remote_code body =
     (case docker_launcher_enter h d service_name model_name_or_path trust_remote_code of
        (evs1, Inl e) \<Rightarrow> (evs1, Some e)
      | (evs1, Inr st) \<Rightarrow>
          (case body st of
             (evs2, None) \<Rightarrow>
               (case docker_launcher_exit d st Next of (evs3, r) \<Rightarrow> (evs1 @ evs2 @ evs3, r))
           | (evs2, Some e) \<Rightarrow>
               (case docker_launcher_exit d st (Throw e) of (evs3, r) \<Rightarrow> (evs1 @ evs2 @ evs3, r))))"

text \<open>The four calls of the teardown, among the events of a trace.\<close>

fun is_teardown_step :: "event \<Rightarrow> bool" where
  "is_teardown_step Stop = True"
| "is_teardown_step Wait = True"
| "is_teardown_step RemoveContainer = True"
| "is_teardown_step RemoveImage = True"
| "is_teardown_step ev = False"

section \<open>The load generator\<close>

text \<open>
  A request in flight: the time at which it completes and what it completes with. The
  client is an input of the model: to the arguments of \<^verbatim>\<open>generate\<close> and the position
  of the call in the order of submission it gives the request's fate.
\<close>

type_synonym 'r future = "nat \<times> (exc + 'r)"

type_synonym 'r client = "string \<Rightarrow> int \<Rightarrow> bool \<Rightarrow> nat \<Rightarrow> 'r future"

text \<open>
  \<^verbatim>\<open>asyncio.gather(*futures)\<close> with \<^verbatim>\<open>return_exceptions\<close> left at \<^verbatim>\<open>False\<close>: the
  exception raised first (at the earliest time; the earlier argument among equals) is
  propagated to the awaiting caller, and only when no request raises is the list of results
  returned, in the order of the arguments.
\<close>

fun first_raised :: "'r future list \<Rightarrow> (nat \<times> exc) option" where
  "first_raised [] = None"
| "first_raised ((t, Inr v) # fs) = first_raised fs"
| "first_raised ((t, Inl e) # fs) =
     (case first_raised fs of
        None \<Rightarrow> Some (t, e)
      | Some (t', e') \<Rightarrow> if t' < t then Some (t', e') else Some (t, e))"

fun returned_values :: "'r future list \<Rightarrow> 'r list" where
  "returned_values [] = []"
| "returned_values ((t, Inr v) # fs) = v # returned_values fs"
| "returned_values ((t, Inl e) # fs) = returned_values fs"

definition gather :: "'r future list \<Rightarrow> exc + 'r list" where
  "gather fs = (case first_raised fs of Some (t, e) \<Rightarrow> Inl e | None \<Rightarrow> Inr (returned_values fs))"

definition generate_load_inner :: "'r client \<Rightarrow> string \<Rightarrow> int \<Rightarrow> int \<Rightarrow> exc + 'r list" where
  "generate_load_inner client prompt max_new_tokens n =
     (let futures = map (client prompt max_new_tokens True) [0..<nat n]
      in gather futures)"

section \<open>Concrete runs\<close>

text \<open>Worlds at which the theorems below are evaluated.\<close>

definition env_retry :: "nat \<Rightarrow> poll" where
  "env_retry i = \<lparr>container = Inr ([], ''running''), gen = ClientConnectorError\<rparr>"

definition env_exits :: "nat \<Rightarrow> poll" where
  "env_exits i = \<lparr>container = Inr (''boot'', if i < 2 then ''running'' else ''exited''),
                  gen = ServerDisconnectedError\<rparr>"

definition env_fatal_late :: "nat \<Rightarrow> poll" where
  "env_fatal_late i = \<lparr>container = Inr ([], ''running''),
       gen = (if i < 1 then ClientOSError else OtherRaised (OtherException ''500 Internal Server Error''))\<rparr>"

definition env_fatal_early :: "nat \<Rightarrow> poll" where
  "env_fatal_early i = \<lparr>container = Inr ([], ''created''),
       gen = OtherRaised (OtherException ''422 Unprocessable Entity'')\<rparr>"

definition env_ready :: "nat \<Rightarrow> poll" where
  "env_ready i = \<lparr>container = Inr ([], ''running''),
                  gen = (if i < 1 then ClientConnectorError else Returned)\<rparr>"

text \<open>The block \<^verbatim>\<open>await handle.health(timeout)\<close> of a \<^verbatim>\<open>with\<close> statement.\<close>

definition check_health :: "(nat \<Rightarrow> poll) \<Rightarrow> int \<Rightarrow> launched \<Rightarrow> event list \<times> exc option" where
  "check_health env timeout st =
     (case health (handle_container_name st) env timeout of
        (evs, Inl e) \<Rightarrow> (evs, Some e)
      | (evs, Inr u) \<Rightarrow> (evs, None))"

definition host_plain :: host where
  "host_plain = \<lparr>environ = [''PATH'' \<mapsto> ''/usr/bin'', ''HF_BATCH_SIZE'' \<mapsto> ''4'',
                             ''AWS_SECRET_ACCESS_KEY'' \<mapsto> ''hunter2''],
                  HF_TOKEN = Some ''hf_abc'',
                  isdir = (\<lambda>path. path = ''/models/gpt2''),
                  randint = 8080\<rparr>"

definition docker_ok :: docker where
  "docker_ok = \<lparr>stale_get_raises = Some NotFound, stale_stop_raises = None,
                 stale_wait_raises = None, copytree_raises = None,
                 build_result = Inr ''sha256:0a1b'', run_result = Inr ''tgi-tests-gpt2-8080'',
                 stop_raises = None, wait_raises = None, remove_raises = None,
                 image_remove_raises = None\<rparr>"

definition docker_stop_fails :: docker where
  "docker_stop_fails = docker_ok\<lparr>stop_raises := Some (OtherException ''read timed out''),
                                 remove_raises := Some (OtherException ''conflict''),
                                 image_remove_raises := Some NotFound\<rparr>"

definition docker_interrupted :: docker where
  "docker_interrupted = docker_ok\<lparr>stop_raises := Some (BaseOnly ''KeyboardInterrupt'')\<rparr>"

definition docker_remove_interrupted :: docker where
  "docker_remove_interrupted = docker_ok\<lparr>remove_raises := Some (BaseOnly ''KeyboardInterrupt'')\<rparr>"

text \<open>
  Two logs, and two polls: the first answered at instant 4 with the clock read at 6, the
  second answered at 10 with the clock read at 11. The second line of \<open>log_boot\<close> is
  stamped 5, after the first answer and before the reading.
\<close>

definition log_quiet :: "log_line list" where
  "log_quiet = [(3, ''booting''), (8, ''loading weights''), (9, ''ready'')]"

definition log_boot :: "log_line list" where
  "log_boot = [(3, ''booting''), (5, ''loading weights''), (9, ''ready'')]"

definition two_polls :: "(nat \<times> nat) list" where
  "two_polls = [(4, 6), (10, 11)]"

text \<open>
  Two clients: one whose requests all succeed, completing in the reverse of the order of
  submission, and one whose second and third requests fail, the third before the second.
\<close>

definition client_ok :: "string client" where
  "client_ok prompt max_new_tokens details i = (10 - i, Inr (prompt @ str_nat i))"

definition client_flaky :: "string client" where
  "client_flaky prompt max_new_tokens details i =
     (if i = 1 then (7, Inl (OtherException ''500 Internal Server Error''))
      else if i = 2 then (3, Inl (OtherException ''429 Too Many Requests''))
      else (5, Inr (prompt @ str_nat i)))"

text \<open>A call that raises nothing but instances of \<^verbatim>\<open>Exception\<close>, if it raises.\<close>

definition only_Exception :: "exc option \<Rightarrow> bool" where
  "only_Exception r = (case r of None \<Rightarrow> True | Some e \<Rightarrow> is_Exception e)"


section \<open>Properties of the health check\<close>

lemma inner_health_alive:
  "is_alive p \<Longrightarrow> snd (inner_health c p) = Inr True"
  by (auto simp: is_alive_def inner_health_def split: sum.splits prod.splits)

lemma inner_health_dead:
  "is_dead p \<Longrightarrow> snd (inner_health c p) = Inr False"
  by (auto simp: is_dead_def inner_health_def split: sum.splits prod.splits)

lemma inner_health_events:
  "Generate \<notin> set (fst (inner_health c p))" "Sleep \<notin> set (fst (inner_health c p))"
  "count_list (fst (inner_health c p)) (ContainersGet c) = 1"
  "take 1 (fst (inner_health c p)) = [ContainersGet c]"
  by (auto simp: inner_health_def split: sum.splits prod.splits)

lemma health_body_retry:
  "is_alive p \<Longrightarrow> is_transient p \<Longrightarrow> health_body c i p = (retry_events c p, Continue)"
  using inner_health_alive [of p c]
  by (auto simp: health_body_def retry_events_def is_transient_def split: prod.splits sum.splits)

lemma health_body_dead:
  "is_dead p \<Longrightarrow> health_body c i p = (fst (inner_health c p), Raise (RuntimeError (crashed_msg i)))"
  using inner_health_dead [of p c]
  by (auto simp: health_body_def split: prod.splits sum.splits)

lemma health_body_fatal:
  "is_alive p \<Longrightarrow> is_fatal p \<Longrightarrow>
   health_body c i p = (fst (inner_health c p) @ [Generate], Raise (RuntimeError generation_failed_msg))"
  using inner_health_alive [of p c]
  by (auto simp: health_body_def is_fatal_def split: prod.splits sum.splits gen_outcome.splits)

lemma health_body_first:
  "take 1 (fst (health_body c i p)) = [ContainersGet c]"
  by (auto simp: health_body_def inner_health_def split: prod.splits sum.splits gen_outcome.splits)

lemma health_body_generate:
  "Generate \<in> set (fst (health_body c i p)) \<Longrightarrow> is_alive p"
  by (auto simp: health_body_def inner_health_def is_alive_def
      split: prod.splits sum.splits if_splits gen_outcome.splits)

lemma health_for_retry:
  "(\<And>i. i \<in> set js \<Longrightarrow> is_alive (env i) \<and> is_transient (env i)) \<Longrightarrow>
   health_for c env js = (concat (map (\<lambda>i. retry_events c (env i)) js), None)"
  by (induction js) (simp_all add: health_body_retry)

lemma health_for_append:
  "health_for c env xs = (evs, None) \<Longrightarrow>
   health_for c env (xs @ ys) = (evs @ fst (health_for c env ys), snd (health_for c env ys))"
  by (induction xs arbitrary: evs) (auto split: prod.splits control.splits)

lemma upt_split: "k < n \<Longrightarrow> [0..<n] = [0..<k] @ k # [Suc k..<n]"
  using upt_add_eq_append [of 0 k "n - k"] by (simp add: upt_conv_Cons)

lemma count_list_concat_map:
  "count_list (concat (map f xs)) x = sum_list (map (\<lambda>i. count_list (f i) x) xs)"
  by (induction xs) simp_all

lemma count_retry_events:
  "count_list (retry_events c p) Sleep = 1"
  "count_list (retry_events c p) Generate = 1"
  "count_list (retry_events c p) (ContainersGet c) = 1"
  using inner_health_events [of c p] by (simp_all add: retry_events_def count_list_0_iff)

lemma sum_list_const_one: "sum_list (map (\<lambda>i. Suc 0) xs) = length xs"
  by (induction xs) simp_all

lemma count_retries:
  "count_list (concat (map (\<lambda>i. retry_events c (env i)) js)) Sleep = length js"
  "count_list (concat (map (\<lambda>i. retry_events c (env i)) js)) Generate = length js"
  "count_list (concat (map (\<lambda>i. retry_events c (env i)) js)) (ContainersGet c) = length js"
  by (simp_all add: count_list_concat_map count_retry_events sum_list_const_one)

text \<open>A run in which the first k iterations retry, up to the iteration that decides.\<close>

lemma health_decided_at:
  assumes k: "k < nat T"
    and retry: "\<And>i. i < k \<Longrightarrow> is_alive (env i) \<and> is_transient (env i)"
    and body: "health_body c k (env k) = (evs, Raise e)"
  shows "health c env T = (concat (map (\<lambda>i. retry_events c (env i)) [0..<k]) @ evs, Inl e)"
proof -
  have pre: "health_for c env [0..<k] = (concat (map (\<lambda>i. retry_events c (env i)) [0..<k]), None)"
    using retry by (intro health_for_retry) simp
  have "health_for c env (k # [Suc k..<nat T]) = (evs, Some (Inl e))"
    using body by simp
  with health_for_append [OF pre, of "k # [Suc k..<nat T]"]
  have "health_for c env [0..<nat T]
          = (concat (map (\<lambda>i. retry_events c (env i)) [0..<k]) @ evs, Some (Inl e))"
    using upt_split [OF k] by simp
  moreover have "0 < T" using k by simp
  ultimately show ?thesis by (simp add: health_def)
qed

lemma health_exhausted:
  assumes T: "1 \<le> T"
    and retry: "\<And>i. i < nat T \<Longrightarrow> is_alive (env i) \<and> is_transient (env i)"
  shows "health c env T = (concat (map (\<lambda>i. retry_events c (env i)) [0..<nat T]),
                           Inl (RuntimeError (failed_to_start_msg (nat T - 1))))"
proof -
  have "health_for c env [0..<nat T] = (concat (map (\<lambda>i. retry_events c (env i)) [0..<nat T]), None)"
    using retry by (intro health_for_retry) simp
  moreover have "last [0..<nat T] = nat T - 1"
    using T by (cases "nat T") simp_all
  moreover have "0 < T" using T by simp
  ultimately show ?thesis by (simp add: health_def)
qed

text \<open>
  Claim C10. Called with a timeout that is not strictly positive, \<^verbatim>\<open>health\<close> fails its
  assertion before any query of the container and before any readiness request: the trace
  is empty. Conversely a run that has any event at all had a timeout above zero.
\<close>

theorem health_asserts_positive_timeout:
  "(timeout \<le> 0 \<longrightarrow> health c env timeout = ([], Inl AssertionError))
   \<and> (fst (health c env timeout) \<noteq> [] \<longrightarrow> 0 < timeout)"
  by (simp add: health_def)

theorem health_asserts_positive_timeout_witness:
  "(0::int) \<le> 0 \<and> health ''tgi'' env_retry 0 = ([], Inl AssertionError)
   \<and> fst (health ''tgi'' env_retry 1) \<noteq> [] \<and> (0::int) < 1"
proof -
  have "fst (health ''tgi'' env_retry 1) \<noteq> []"
    by (simp add: health_def health_body_def inner_health_def env_retry_def)
  then show ?thesis
    using health_asserts_positive_timeout [of 0 "''tgi''" env_retry]
      health_asserts_positive_timeout [of 1 "''tgi''" env_retry]
    by simp
qed

text \<open>
  Claim C5. For a timeout \<open>T \<ge> 1\<close>, when the container stays alive and every readiness
  request fails with one of the retried connection errors, \<^verbatim>\<open>health\<close> runs exactly
  \<open>T\<close> iterations (\<open>T\<close> container queries, \<open>T\<close> requests, \<open>T\<close> sleeps of one second) and only
  then raises the error of the timeout.
\<close>

theorem health_times_out_after_all_polls:
  assumes "1 \<le> T" and "\<forall>i<nat T. is_alive (env i) \<and> is_transient (env i)"
  shows "health c env T = (concat (map (\<lambda>i. retry_events c (env i)) [0..<nat T]),
                           Inl (RuntimeError (failed_to_start_msg (nat T - 1))))
       \<and> count_list (fst (health c env T)) (ContainersGet c) = nat T
       \<and> count_list (fst (health c env T)) Generate = nat T
       \<and> count_list (fst (health c env T)) Sleep = nat T"
  using assms by (simp add: health_exhausted count_retries)

theorem health_times_out_after_all_polls_witness:
  "health ''tgi'' env_retry 3
     = ([ContainersGet ''tgi'', Logs, Generate, Sleep,
         ContainersGet ''tgi'', Logs, Generate, Sleep,
         ContainersGet ''tgi'', Logs, Generate, Sleep],
        Inl (RuntimeError ''Service failed to start after 2 seconds.''))
   \<and> count_list (fst (health ''tgi'' env_retry 3)) Sleep = 3"
proof -
  have h: "\<forall>i<nat 3. is_alive (env_retry i) \<and> is_transient (env_retry i)"
    by (simp add: is_alive_def is_transient_def env_retry_def)
  have u: "[0..<3] = [0, 1, 2]" by (simp add: upt_rec)
  have s: "str_nat 2 = ''2''" by (simp add: str_nat.simps digit_char_def)
  show ?thesis
    using health_times_out_after_all_polls [of 3 env_retry "''tgi''"] h
    by (simp add: u s retry_events_def inner_health_def env_retry_def failed_to_start_msg_def)
qed

text \<open>
  Claim C4. In every iteration the container is queried first, and a request is sent only
  when its status is \<^verbatim>\<open>running\<close> or \<^verbatim>\<open>created\<close>; otherwise the iteration raises the
  crash error without sending a request. So a container found dead at iteration \<open>k\<close> below
  the timeout \<open>T\<close>, after \<open>k\<close> retried iterations, ends the run with the crash error after
  \<open>k\<close> sleeps, fewer than \<open>T\<close>.
\<close>

theorem health_crash_fails_fast:
  assumes "k < nat T" and "\<forall>i<k. is_alive (env i) \<and> is_transient (env i)"
    and "is_dead (env k)"
  shows "(\<forall>i p. take 1 (fst (health_body c i p)) = [ContainersGet c]
              \<and> (Generate \<in> set (fst (health_body c i p)) \<longrightarrow> is_alive p))
       \<and> Generate \<notin> set (fst (health_body c k (env k)))
       \<and> snd (health_body c k (env k)) = Raise (RuntimeError (crashed_msg k))
       \<and> health c env T = (concat (map (\<lambda>i. retry_events c (env i)) [0..<k])
                              @ fst (inner_health c (env k)),
                            Inl (RuntimeError (crashed_msg k)))
       \<and> count_list (fst (health c env T)) Generate = k
       \<and> count_list (fst (health c env T)) Sleep = k"
proof -
  have first: "\<forall>i p. take 1 (fst (health_body c i p)) = [ContainersGet c]
                   \<and> (Generate \<in> set (fst (health_body c i p)) \<longrightarrow> is_alive p)"
    using health_body_first health_body_generate by blast
  have body: "health_body c k (env k)
                = (fst (inner_health c (env k)), Raise (RuntimeError (crashed_msg k)))"
    using assms(3) by (rule health_body_dead)
  have run: "health c env T = (concat (map (\<lambda>i. retry_events c (env i)) [0..<k])
                                 @ fst (inner_health c (env k)),
                               Inl (RuntimeError (crashed_msg k)))"
    using assms(1,2) body by (intro health_decided_at) simp_all
  have rest: "Generate \<notin> set (fst (health_body c k (env k)))
       \<and> snd (health_body c k (env k)) = Raise (RuntimeError (crashed_msg k))
       \<and> health c env T = (concat (map (\<lambda>i. retry_events c (env i)) [0..<k])
                              @ fst (inner_health c (env k)),
                            Inl (RuntimeError (crashed_msg k)))
       \<and> count_list (fst (health c env T)) Generate = k
       \<and> count_list (fst (health c env T)) Sleep = k"
    using inner_health_events [of c "env k"]
    by (simp add: body run count_retries count_list_0_iff)
  from first rest show ?thesis by (rule conjI)
qed

theorem health_crash_fails_fast_witness:
  "health ''tgi'' env_exits 60
     = ([ContainersGet ''tgi'', Logs, Print ''boot'', Generate, Sleep,
         ContainersGet ''tgi'', Logs, Print ''boot'', Generate, Sleep,
         ContainersGet ''tgi'', Logs, Print ''boot''],
        Inl (RuntimeError ''Service crashed after 2 seconds.''))
   \<and> count_list (fst (health ''tgi'' env_exits 60)) Sleep = 2"
proof -
  have h: "\<forall>i<2. is_alive (env_exits i) \<and> is_transient (env_exits i)"
    by (simp add: is_alive_def is_transient_def env_exits_def)
  have d: "is_dead (env_exits 2)"
    by (simp add: is_dead_def env_exits_def)
  have k: "(2::nat) < nat 60" by simp
  have u: "[0..<2] = [0, 1]" by (simp add: upt_rec)
  have r: "concat (map (\<lambda>i. retry_events ''tgi'' (env_exits i)) [0..<2])
             = [ContainersGet ''tgi'', Logs, Print ''boot'', Generate, Sleep,
                ContainersGet ''tgi'', Logs, Print ''boot'', Generate, Sleep]"
    by (simp add: u retry_events_def inner_health_def env_exits_def)
  have l: "fst (inner_health ''tgi'' (env_exits 2)) = [ContainersGet ''tgi'', Logs, Print ''boot'']"
    by (simp add: inner_health_def env_exits_def)
  have s: "crashed_msg 2 = ''Service crashed after 2 seconds.''"
    by (simp add: crashed_msg_def str_nat.simps digit_char_def)
  show ?thesis
    using health_crash_fails_fast [OF k h d, of "''tgi''"]
    by (simp add: r l s)
qed

text \<open>
  Claim C3, as amended. A failed health check raises a \<^verbatim>\<open>RuntimeError\<close> whose message
  tells the cause: a crash found at iteration \<open>k\<close> gives
  \<^verbatim>\<open>Service crashed after k seconds.\<close>, a timeout after the last iteration \<open>k = T - 1\<close> gives
  \<^verbatim>\<open>Service failed to start after k seconds.\<close>, and a request that raised any other
  instance of \<^verbatim>\<open>Exception\<close> gives a message that starts with
  \<^verbatim>\<open>Basic generation failed with: \<close> and carries no elapsed time. No two of the three
  can be mistaken for each other, whatever follows the prefixes.
\<close>

theorem health_failure_messages:
  assumes "k < nat T" and "\<forall>i<k. is_alive (env i) \<and> is_transient (env i)"
  shows "(is_dead (env k) \<longrightarrow>
            snd (health c env T)
              = Inl (RuntimeError (''Service crashed after '' @ str_nat k @ '' seconds.'')))
       \<and> (is_alive (env k) \<and> is_fatal (env k) \<longrightarrow>
            (\<exists>m. snd (health c env T)
                    = Inl (RuntimeError (''Basic generation failed with: '' @ m))))
       \<and> (is_alive (env k) \<and> is_transient (env k) \<and> Suc k = nat T \<longrightarrow>
            snd (health c env T)
              = Inl (RuntimeError (''Service failed to start after '' @ str_nat k @ '' seconds.'')))
       \<and> (\<forall>a b m. ''Service crashed after '' @ a \<noteq> ''Basic generation failed with: '' @ m
                  \<and> ''Service crashed after '' @ a \<noteq> ''Service failed to start after '' @ b
                  \<and> ''Service failed to start after '' @ b \<noteq> ''Basic generation failed with: '' @ m)"
proof -
  have crash: "snd (health c env T) = Inl (RuntimeError (crashed_msg k))" if "is_dead (env k)"
    using health_decided_at [OF assms(1), of env c, OF _ health_body_dead [OF that]] assms(2)
    by simp
  have fatal: "snd (health c env T) = Inl (RuntimeError generation_failed_msg)"
    if "is_alive (env k)" "is_fatal (env k)"
    using health_decided_at [OF assms(1), of env c, OF _ health_body_fatal [OF that]] assms(2)
    by simp
  have timeout: "snd (health c env T) = Inl (RuntimeError (failed_to_start_msg k))"
    if "is_alive (env k)" "is_transient (env k)" "Suc k = nat T"
  proof -
    have "\<And>i. i < nat T \<Longrightarrow> is_alive (env i) \<and> is_transient (env i)"
      using assms(2) that by (metis less_Suc_eq)
    moreover have "1 \<le> T" using assms(1) by simp
    ultimately have "health c env T = (concat (map (\<lambda>i. retry_events c (env i)) [0..<nat T]),
                           Inl (RuntimeError (failed_to_start_msg (nat T - 1))))"
      by (rule health_exhausted [rotated])
    moreover have "nat T - 1 = k" using that(3) by simp
    ultimately show ?thesis by simp
  qed
  have "\<exists>m. generation_failed_msg = ''Basic generation failed with: '' @ m"
    by (simp add: generation_failed_msg_def)
  with crash fatal timeout show ?thesis
    by (auto simp: crashed_msg_def failed_to_start_msg_def)
qed

theorem health_failure_messages_witness:
  "snd (health ''tgi'' env_exits 60) = Inl (RuntimeError ''Service crashed after 2 seconds.'')
   \<and> (\<exists>m. snd (health ''tgi'' env_fatal_late 3)
             = Inl (RuntimeError (''Basic generation failed with: '' @ m)))
   \<and> snd (health ''tgi'' env_retry 3)
       = Inl (RuntimeError ''Service failed to start after 2 seconds.'')"
proof -
  have s: "str_nat 2 = ''2''" by (simp add: str_nat.simps digit_char_def)
  have a: "(2::nat) < nat 60" "\<forall>i<2. is_alive (env_exits i) \<and> is_transient (env_exits i)"
    "is_dead (env_exits 2)"
    by (simp_all add: is_alive_def is_transient_def is_dead_def env_exits_def)
  have b: "(1::nat) < nat 3" "\<forall>i<1. is_alive (env_fatal_late i) \<and> is_transient (env_fatal_late i)"
    "is_alive (env_fatal_late 1) \<and> is_fatal (env_fatal_late 1)"
    by (simp_all add: is_alive_def is_transient_def is_fatal_def env_fatal_late_def)
  have c: "(2::nat) < nat 3" "\<forall>i<2. is_alive (env_retry i) \<and> is_transient (env_retry i)"
    "is_alive (env_retry 2) \<and> is_transient (env_retry 2) \<and> Suc 2 = nat 3"
    by (simp_all add: is_alive_def is_transient_def env_retry_def)
  show ?thesis
    using health_failure_messages [OF a(1,2), of "''tgi''"] a(3)
      health_failure_messages [OF b(1,2), of "''tgi''"] b(3)
      health_failure_messages [OF c(1,2), of "''tgi''"] c(3)
    by (simp add: s)
qed

text \<open>
  The claim as stated fails for the third cause: the message is the same constant text
  after one second and after none, and for two different failures of the request, so it
  holds neither the elapsed time nor a description of the failure.
\<close>

theorem health_fatal_message_counterexample:
  "health ''tgi'' env_fatal_late 3
     = ([ContainersGet ''tgi'', Logs, Generate, Sleep, ContainersGet ''tgi'', Logs, Generate],
        Inl (RuntimeError ''Basic generation failed with: {e}''))
   \<and> health ''tgi'' env_fatal_early 3
     = ([ContainersGet ''tgi'', Logs, Generate],
        Inl (RuntimeError ''Basic generation failed with: {e}''))"
proof -
  have u: "[0..<3] = [0, 1, 2]" by (simp add: upt_rec)
  show ?thesis
    by (simp add: health_def u health_body_def inner_health_def env_fatal_late_def
        env_fatal_early_def generation_failed_msg_def)
qed

section \<open>Properties of the draining of the logs\<close>

lemma in_window_lower: "in_window w ps t \<Longrightarrow> timeline w ps \<Longrightarrow> w \<le> t"
  by (induction w ps t rule: in_window.induct) auto

lemma timeline_later: "timeline w ps \<Longrightarrow> (a, b) \<in> set ps \<Longrightarrow> w \<le> a"
  by (induction w ps rule: timeline.induct) auto

lemma gap_not_in_window:
  "timeline w ps \<Longrightarrow> (a, b) \<in> set ps \<Longrightarrow> a < t \<Longrightarrow> t < b \<Longrightarrow> \<not> in_window w ps t"
proof (induction w ps rule: timeline.induct)
  case (1 w)
  then show ?case by simp
next
  case (2 w a' b' ps)
  show ?case
  proof (cases "(a, b) = (a', b')")
    case True
    with 2 in_window_lower [of b' ps t] show ?thesis by auto
  next
    case False
    with 2 have m: "(a, b) \<in> set ps" and tl: "timeline b' ps" and o: "a' < b'" by auto
    from timeline_later [OF tl m] have "b' \<le> a" .
    with o 2(4) have "\<not> t \<le> a'" by simp
    moreover from 2(1) tl m 2(4,5) have "\<not> in_window b' ps t" by simp
    ultimately show ?thesis by simp
  qed
qed

lemma filter_sorted_above:
  "sorted (map fst xs) \<Longrightarrow> (\<forall>x \<in> set xs. a < fst x) \<Longrightarrow>
   filter (\<lambda>x. P x \<and> fst x \<le> a) xs = []"
  by (induction xs) auto

lemma filter_split_sorted:
  assumes "sorted (map fst xs)" and "\<And>x. Q x \<Longrightarrow> a < fst x"
  shows "filter (\<lambda>x. P x \<and> fst x \<le> (a::nat)) xs @ filter Q xs
           = filter (\<lambda>x. (P x \<and> fst x \<le> a) \<or> Q x) xs"
  using assms(1)
proof (induction xs)
  case Nil
  then show ?case by simp
next
  case (Cons x xs)
  then have s: "sorted (map fst xs)" and le: "\<forall>y \<in> set xs. fst x \<le> fst y" by auto
  show ?case
  proof (cases "Q x")
    case True
    then have "a < fst x" by (rule assms(2))
    with le have "\<forall>y \<in> set xs. a < fst y" by auto
    then have e: "filter (\<lambda>x. P x \<and> fst x \<le> a) xs = []"
      using s by (intro filter_sorted_above) auto
    from Cons.IH [OF s] e True \<open>a < fst x\<close> show ?thesis by simp
  next
    case False
    with Cons.IH [OF s] show ?thesis by simp
  qed
qed

lemma drain_polls_filter:
  "timeline w ps \<Longrightarrow> sorted (map fst written) \<Longrightarrow>
   drain_polls written w ps = filter (\<lambda>line. in_window w ps (fst line)) written"
proof (induction w ps rule: timeline.induct)
  case (1 w)
  then show ?case by simp
next
  case (2 w a b ps)
  then have tl: "timeline b ps" and o: "a < b" by auto
  have q: "\<And>x. in_window b ps (fst x) \<Longrightarrow> a < fst x"
    using in_window_lower [OF _ tl] o by fastforce
  have "drain_polls written w ((a, b) # ps)
          = filter (\<lambda>x. w \<le> fst x \<and> fst x \<le> a) written
              @ filter (\<lambda>x. in_window b ps (fst x)) written"
    using 2(1) tl 2(3) by (simp add: drain_logs_def container_logs_def)
  also have "\<dots> = filter (\<lambda>x. (w \<le> fst x \<and> fst x \<le> a) \<or> in_window b ps (fst x)) written"
    using 2(3) q by (rule filter_split_sorted)
  finally show ?case by simp
qed

text \<open>
  Claim C9, as amended. For polls whose readings are in the order of time, what the polls
  forward is the log restricted to the lines stamped between a watermark and the answer
  of the poll that uses it: each such line once, in the order written, and no other line.
  An instant after the answer of a poll and before the reading of the clock that sets the
  next watermark is between no watermark and its answer: a line stamped then is forwarded
  by no poll.
\<close>

theorem logs_forwarded_in_windows:
  assumes "timeline log_since polls" and "sorted (map fst written)"
  shows "drain_polls written log_since polls
           = filter (\<lambda>line. in_window log_since polls (fst line)) written
       \<and> (\<forall>answered now t. (answered, now) \<in> set polls \<and> answered < t \<and> t < now
             \<longrightarrow> \<not> in_window log_since polls t)"
  using assms drain_polls_filter gap_not_in_window by blast

theorem logs_forwarded_in_windows_witness:
  "drain_polls log_quiet 2 two_polls = [(3, ''booting''), (8, ''loading weights''), (9, ''ready'')]
   \<and> \<not> in_window 2 two_polls 5"
proof -
  have t: "timeline 2 two_polls" by (simp add: two_polls_def)
  have s: "sorted (map fst log_quiet)" by (simp add: log_quiet_def)
  have g: "((4::nat), (6::nat)) \<in> set two_polls \<and> (4::nat) < 5 \<and> (5::nat) < 6"
    by (simp add: two_polls_def)
  have f: "filter (\<lambda>line. in_window 2 two_polls (fst line)) log_quiet
             = [(3, ''booting''), (8, ''loading weights''), (9, ''ready'')]"
    by (simp add: two_polls_def log_quiet_def)
  from logs_forwarded_in_windows [OF t s] g f show ?thesis by metis
qed

text \<open>
  The claim as stated fails: the line stamped 5 is written after the first watermark, the
  first poll is answered at 4 and sets the watermark to 6, and no poll forwards the line.
\<close>

theorem log_line_dropped_counterexample:
  "drain_polls log_boot 2 two_polls = [(3, ''booting''), (9, ''ready'')]
   \<and> (5, ''loading weights'') \<in> set log_boot
   \<and> count_list (drain_polls log_boot 2 two_polls) (5, ''loading weights'') = 0"
  by (simp add: drain_logs_def container_logs_def log_boot_def two_polls_def)

section \<open>Properties of the teardown\<close>

text \<open>
  The calls of the teardown in the order in which they are made, whatever each of them
  raises, and what can leave the teardown.
\<close>

lemma teardown_steps:
  "filter is_teardown_step (fst (teardown d img))
     = Stop # (if stop_raises d = None then [Wait] else [])
         @ RemoveContainer
         # (if img \<noteq> None \<and> only_Exception (remove_raises d) then [RemoveImage] else [])"
  by (cases img)
     (auto simp: teardown_def stop_and_wait_def remove_container_def remove_image_def
        only_Exception_def split: option.splits)

lemma teardown_propagates:
  "snd (teardown d img) = Some e \<Longrightarrow>
   \<not> is_Exception e
   \<and> Some e \<in> {stop_raises d, wait_raises d, remove_raises d, image_remove_raises d}"
  by (cases img)
     (auto simp: teardown_def stop_and_wait_def remove_container_def remove_image_def
        split: option.splits if_splits)

lemma count_list_filter_kept: "P x \<Longrightarrow> count_list (filter P xs) x = count_list xs x"
  by (induction xs) auto

lemma count_teardown:
  "count_list (fst (teardown d img)) Stop = 1"
  "count_list (fst (teardown d img)) Wait = (if stop_raises d = None then 1 else 0)"
  "count_list (fst (teardown d img)) RemoveContainer = 1"
  "count_list (fst (teardown d img)) RemoveImage
     = (if img \<noteq> None \<and> only_Exception (remove_raises d) then 1 else 0)"
proof -
  have s: "count_list (fst (teardown d img)) x
             = count_list (filter is_teardown_step (fst (teardown d img))) x"
    if "is_teardown_step x" for x
    using that by (simp add: count_list_filter_kept)
  show "count_list (fst (teardown d img)) Stop = 1"
    by (simp add: s teardown_steps)
  show "count_list (fst (teardown d img)) Wait = (if stop_raises d = None then 1 else 0)"
    by (simp add: s teardown_steps)
  show "count_list (fst (teardown d img)) RemoveContainer = 1"
    by (simp add: s teardown_steps)
  show "count_list (fst (teardown d img)) RemoveImage
          = (if img \<noteq> None \<and> only_Exception (remove_raises d) then 1 else 0)"
    by (simp add: s teardown_steps)
qed

lemma health_returns_at:
  assumes k: "k < nat T"
    and retry: "\<And>i. i < k \<Longrightarrow> is_alive (env i) \<and> is_transient (env i)"
    and body: "health_body c k (env k) = (evs, Return)"
  shows "health c env T = (concat (map (\<lambda>i. retry_events c (env i)) [0..<k]) @ evs, Inr ())"
proof -
  have pre: "health_for c env [0..<k] = (concat (map (\<lambda>i. retry_events c (env i)) [0..<k]), None)"
    using retry by (intro health_for_retry) simp
  have "health_for c env (k # [Suc k..<nat T]) = (evs, Some (Inr ()))"
    using body by simp
  with health_for_append [OF pre, of "k # [Suc k..<nat T]"]
  have "health_for c env [0..<nat T]
          = (concat (map (\<lambda>i. retry_events c (env i)) [0..<k]) @ evs, Some (Inr ()))"
    using upt_split [OF k] by simp
  moreover have "0 < T" using k by simp
  ultimately show ?thesis by (simp add: health_def)
qed

lemma health_env_exits:
  "health c env_exits 60
     = ([ContainersGet c, Logs, Print ''boot'', Generate, Sleep,
         ContainersGet c, Logs, Print ''boot'', Generate, Sleep,
         ContainersGet c, Logs, Print ''boot''],
        Inl (RuntimeError ''Service crashed after 2 seconds.''))"
proof -
  have k: "(2::nat) < nat 60" by simp
  have r: "\<And>i. i < 2 \<Longrightarrow> is_alive (env_exits i) \<and> is_transient (env_exits i)"
    by (simp add: is_alive_def is_transient_def env_exits_def)
  have b: "health_body c 2 (env_exits 2)
             = ([ContainersGet c, Logs, Print ''boot''],
                Raise (RuntimeError ''Service crashed after 2 seconds.''))"
    by (simp add: health_body_def inner_health_def env_exits_def crashed_msg_def
        str_nat.simps digit_char_def)
  have u: "[0..<2] = [0, 1]" by (simp add: upt_rec)
  have e: "concat (map (\<lambda>i. retry_events c (env_exits i)) [0..<2])
             = [ContainersGet c, Logs, Print ''boot'', Generate, Sleep,
                ContainersGet c, Logs, Print ''boot'', Generate, Sleep]"
    by (simp add: u retry_events_def inner_health_def env_exits_def)
  show ?thesis
    using health_decided_at [where env = env_exits and k = 2, OF k r b] by (simp add: e)
qed

lemma health_env_ready:
  "health c env_ready 60
     = ([ContainersGet c, Logs, Generate, Sleep, ContainersGet c, Logs, Generate], Inr ())"
proof -
  have k: "(1::nat) < nat 60" by simp
  have r: "\<And>i. i < 1 \<Longrightarrow> is_alive (env_ready i) \<and> is_transient (env_ready i)"
    by (simp add: is_alive_def is_transient_def env_ready_def)
  have b: "health_body c 1 (env_ready 1) = ([ContainersGet c, Logs, Generate], Return)"
    by (simp add: health_body_def inner_health_def env_ready_def)
  have e: "retry_events c (env_ready 0) = [ContainersGet c, Logs, Generate, Sleep]"
    by (simp add: retry_events_def inner_health_def env_ready_def)
  show ?thesis
    using health_returns_at [where env = env_ready and k = 1, OF k r b] by (simp add: e)
qed

lemma str_nat_8080: "str_nat 8080 = ''8080''"
  by (simp add: str_nat.simps digit_char_def)

lemma enter_hub:
  "\<exists>st. docker_launcher_enter host_plain docker_ok ''gpt2'' ''gpt2'' False
           = ([ContainersGet ''tgi-tests-gpt2-8080'', Run ''neuronx-tgi:latest''], Inr st)
        \<and> handle_container_name st = ''tgi-tests-gpt2-8080'' \<and> st_image st = None"
  by (simp add: docker_launcher_enter_def stale_cleanup_def except_NotFound_def choose_image_def
      container_name_of_def DOCKER_IMAGE_def host_plain_def docker_ok_def str_nat_8080 Let_def)

lemma enter_local:
  "\<exists>st. docker_launcher_enter host_plain docker_ok ''gpt2'' ''/models/gpt2'' False
           = ([ContainersGet ''tgi-tests-gpt2-8080'', CopyTree ''/models/gpt2'',
               Build ''tgi-tests-gpt2-8080-img'', Run ''tgi-tests-gpt2-8080-img''], Inr st)
        \<and> handle_container_name st = ''tgi-tests-gpt2-8080''
        \<and> st_image st = Some ''sha256:0a1b''"
  by (simp add: docker_launcher_enter_def stale_cleanup_def except_NotFound_def choose_image_def
      container_name_of_def DOCKER_IMAGE_def host_plain_def docker_ok_def str_nat_8080 Let_def)

lemma teardown_docker_ok:
  "teardown docker_ok None = ([Stop, Wait, RemoveContainer], None)"
  "teardown docker_ok (Some i) = ([Stop, Wait, RemoveContainer, RemoveImage], None)"
  by (simp_all add: teardown_def stop_and_wait_def remove_container_def remove_image_def
      docker_ok_def)

lemma enter_local_of:
  assumes "stale_get_raises d = Some NotFound" and "copytree_raises d = None"
    and "build_result d = Inr ''sha256:0a1b''" and "run_result d = Inr ''tgi-tests-gpt2-8080''"
  shows "\<exists>st. docker_launcher_enter host_plain d ''gpt2'' ''/models/gpt2'' False
           = ([ContainersGet ''tgi-tests-gpt2-8080'', CopyTree ''/models/gpt2'',
               Build ''tgi-tests-gpt2-8080-img'', Run ''tgi-tests-gpt2-8080-img''], Inr st)
        \<and> handle_container_name st = ''tgi-tests-gpt2-8080''
        \<and> st_image st = Some ''sha256:0a1b''"
  using assms
  by (simp add: docker_launcher_enter_def stale_cleanup_def except_NotFound_def choose_image_def
      container_name_of_def DOCKER_IMAGE_def host_plain_def str_nat_8080 Let_def)

lemma enter_image_derived:
  assumes "docker_launcher_enter h d service_name model_name_or_path trust_remote_code
             = (evs, Inr st)"
  shows "(st_image st \<noteq> None) = isdir h model_name_or_path"
proof -
  let ?name = "container_name_of service_name (randint h)"
  obtain evs1 where c: "stale_cleanup d ?name = (evs1, None)"
    using assms by (auto simp: docker_launcher_enter_def Let_def split: prod.splits option.splits)
  obtain evs2 tag img mid where i:
    "choose_image h d ?name model_name_or_path = (evs2, Inr (tag, img, mid))"
    using assms c
    by (auto simp: docker_launcher_enter_def Let_def split: prod.splits sum.splits)
  have "st_image st = img"
    using assms c i by (auto simp: docker_launcher_enter_def Let_def split: sum.splits)
  moreover have "(img \<noteq> None) = isdir h model_name_or_path"
    using i by (auto simp: choose_image_def Let_def split: option.splits sum.splits if_splits)
  ultimately show ?thesis by simp
qed

lemma with_normal_exit:
  "docker_launcher_enter h d service_name model_name_or_path trust_remote_code = (evs1, Inr st)
   \<Longrightarrow> body st = (evs2, None)
   \<Longrightarrow> with_docker_launcher h d service_name model_name_or_path trust_remote_code body
         = (evs1 @ evs2 @ fst (teardown d (st_image st)), snd (teardown d (st_image st)))"
  by (simp add: with_docker_launcher_def docker_launcher_exit_def split: prod.splits)

lemma with_raising_block:
  "docker_launcher_enter h d service_name model_name_or_path trust_remote_code = (evs1, Inr st)
   \<Longrightarrow> body st = (evs2, Some e)
   \<Longrightarrow> with_docker_launcher h d service_name model_name_or_path trust_remote_code body
         = (evs1 @ evs2, Some e)"
  by (simp add: with_docker_launcher_def docker_launcher_exit_def)

text \<open>
  Claim C6, as amended. The teardown makes its calls in the fixed order \<^verbatim>\<open>stop\<close>,
  \<^verbatim>\<open>wait\<close>, \<^verbatim>\<open>remove\<close> on the container, \<^verbatim>\<open>remove\<close> on the image. \<^verbatim>\<open>wait\<close> is
  called only when \<^verbatim>\<open>stop\<close> did not raise. The removal of the container is called
  whatever \<^verbatim>\<open>stop\<close> and \<^verbatim>\<open>wait\<close> raised, be it outside the class \<^verbatim>\<open>Exception\<close>. The
  removal of the image is called when an image was built and the removal of the container
  returned or raised an instance of \<^verbatim>\<open>Exception\<close>. No instance of \<^verbatim>\<open>Exception\<close>
  leaves the teardown: what leaves it was raised by one of the four calls and is outside
  that class.
\<close>

theorem teardown_order_and_suppression:
  "filter is_teardown_step (fst (teardown d img))
     = Stop # (if stop_raises d = None then [Wait] else [])
         @ RemoveContainer
         # (if img \<noteq> None \<and> only_Exception (remove_raises d) then [RemoveImage] else [])
   \<and> (\<forall>e. snd (teardown d img) = Some e \<longrightarrow>
          \<not> is_Exception e
          \<and> Some e \<in> {stop_raises d, wait_raises d, remove_raises d, image_remove_raises d})"
  using teardown_steps teardown_propagates by blast

theorem teardown_order_and_suppression_witness:
  "filter is_teardown_step (fst (teardown docker_stop_fails (Some ''sha256:0a1b'')))
     = [Stop, RemoveContainer, RemoveImage]
   \<and> snd (teardown docker_stop_fails (Some ''sha256:0a1b'')) = None
   \<and> filter is_teardown_step (fst (teardown docker_interrupted (Some ''sha256:0a1b'')))
     = [Stop, RemoveContainer, RemoveImage]
   \<and> filter is_teardown_step (fst (teardown docker_ok None)) = [Stop, Wait, RemoveContainer]"
proof -
  have a: "stop_raises docker_stop_fails = Some (OtherException ''read timed out'')"
    "wait_raises docker_stop_fails = None"
    "remove_raises docker_stop_fails = Some (OtherException ''conflict'')"
    "image_remove_raises docker_stop_fails = Some NotFound"
    by (simp_all add: docker_stop_fails_def docker_ok_def)
  have b: "stop_raises docker_interrupted = Some (BaseOnly ''KeyboardInterrupt'')"
    "remove_raises docker_interrupted = None"
    by (simp_all add: docker_interrupted_def docker_ok_def)
  have c: "stop_raises docker_ok = None" "remove_raises docker_ok = None"
    by (simp_all add: docker_ok_def)
  have n: "snd (teardown docker_stop_fails (Some ''sha256:0a1b'')) = None"
  proof (cases "snd (teardown docker_stop_fails (Some ''sha256:0a1b''))")
    case None
    then show ?thesis .
  next
    case (Some e)
    with teardown_order_and_suppression [of docker_stop_fails "Some ''sha256:0a1b''"]
    have "\<not> is_Exception e"
      "Some e \<in> {stop_raises docker_stop_fails, wait_raises docker_stop_fails,
                 remove_raises docker_stop_fails, image_remove_raises docker_stop_fails}"
      by blast+
    then show ?thesis by (auto simp: a)
  qed
  show ?thesis
    using teardown_order_and_suppression [of docker_stop_fails "Some ''sha256:0a1b''"]
      teardown_order_and_suppression [of docker_interrupted "Some ''sha256:0a1b''"]
      teardown_order_and_suppression [of docker_ok None] n
    by (simp add: a b c only_Exception_def)
qed

text \<open>
  The claim as stated fails three times. When \<^verbatim>\<open>stop\<close> raises, \<^verbatim>\<open>wait\<close> is not called:
  both stand in one \<^verbatim>\<open>try\<close> block. The clauses are \<^verbatim>\<open>except Exception\<close>, so a
  \<^verbatim>\<open>KeyboardInterrupt\<close> during \<^verbatim>\<open>stop\<close> leaves the teardown after its \<^verbatim>\<open>finally\<close>
  block. And a \<^verbatim>\<open>KeyboardInterrupt\<close> during the removal of the container leaves it at
  once, before the removal of the image.
\<close>

theorem teardown_skips_wait_counterexample:
  "teardown docker_stop_fails (Some ''sha256:0a1b'')
     = ([Stop, LogException (OtherException ''read timed out''),
         RemoveContainer, LogError, LogException (OtherException ''conflict''),
         RemoveImage], None)
   \<and> teardown docker_interrupted None
     = ([Stop, RemoveContainer], Some (BaseOnly ''KeyboardInterrupt''))
   \<and> teardown docker_remove_interrupted (Some ''sha256:0a1b'')
     = ([Stop, Wait, RemoveContainer], Some (BaseOnly ''KeyboardInterrupt''))"
  by (simp add: teardown_def stop_and_wait_def remove_container_def remove_image_def
      docker_stop_fails_def docker_interrupted_def docker_remove_interrupted_def docker_ok_def)

section \<open>Properties of the launcher's scope\<close>

text \<open>
  Claim C1, as amended. After a successful start, when the \<^verbatim>\<open>with\<close> block ends without
  raising, the teardown runs once, after the block: \<^verbatim>\<open>stop\<close> is called exactly once,
  \<^verbatim>\<open>wait\<close> exactly once unless \<^verbatim>\<open>stop\<close> raised, the removal of the container exactly
  once, and the removal of the derived image (there is one exactly when the model
  reference is a directory) exactly once unless the removal of the container raised
  outside the class \<^verbatim>\<open>Exception\<close>. When the block raises (a failed health check, a failed
  load generation), the exception is thrown into the generator at its \<^verbatim>\<open>yield\<close>, which
  no \<^verbatim>\<open>try\<close> statement encloses: no statement of the teardown runs and the exception
  goes on to the caller.
\<close>

theorem teardown_only_on_normal_exit:
  assumes "docker_launcher_enter h d service_name model_name_or_path trust_remote_code
             = (evs1, Inr st)"
  shows "(body st = (evs2, None) \<longrightarrow>
            with_docker_launcher h d service_name model_name_or_path trust_remote_code body
              = (evs1 @ evs2 @ fst (teardown d (st_image st)), snd (teardown d (st_image st))))
       \<and> (body st = (evs2, Some e) \<longrightarrow>
            with_docker_launcher h d service_name model_name_or_path trust_remote_code body
              = (evs1 @ evs2, Some e))
       \<and> docker_launcher_exit d st Next = teardown d (st_image st)
       \<and> docker_launcher_exit d st (Throw e) = ([], Some e)
       \<and> (st_image st \<noteq> None) = isdir h model_name_or_path
       \<and> count_list (fst (teardown d (st_image st))) Stop = 1
       \<and> count_list (fst (teardown d (st_image st))) Wait
           = (if stop_raises d = None then 1 else 0)
       \<and> count_list (fst (teardown d (st_image st))) RemoveContainer = 1
       \<and> count_list (fst (teardown d (st_image st))) RemoveImage
           = (if isdir h model_name_or_path \<and> only_Exception (remove_raises d) then 1 else 0)"
proof -
  have i: "(st_image st \<noteq> None) = isdir h model_name_or_path"
    using assms by (rule enter_image_derived)
  have x: "docker_launcher_exit d st Next = teardown d (st_image st)"
    "docker_launcher_exit d st (Throw e) = ([], Some e)"
    by (simp_all add: docker_launcher_exit_def)
  have n: "body st = (evs2, None) \<longrightarrow>
            with_docker_launcher h d service_name model_name_or_path trust_remote_code body
              = (evs1 @ evs2 @ fst (teardown d (st_image st)), snd (teardown d (st_image st)))"
    using with_normal_exit [OF assms] by blast
  have r: "body st = (evs2, Some e) \<longrightarrow>
            with_docker_launcher h d service_name model_name_or_path trust_remote_code body
              = (evs1 @ evs2, Some e)"
    using with_raising_block [OF assms] by blast
  have c: "count_list (fst (teardown d (st_image st))) RemoveImage
             = (if isdir h model_name_or_path \<and> only_Exception (remove_raises d) then 1 else 0)"
    using i by (simp add: count_teardown(4))
  from n r x i c count_teardown(1-3) [of d "st_image st"] show ?thesis by simp
qed

theorem teardown_only_on_normal_exit_witness:
  "with_docker_launcher host_plain docker_ok ''gpt2'' ''/models/gpt2'' False
       (check_health env_ready 60)
     = ([ContainersGet ''tgi-tests-gpt2-8080'', CopyTree ''/models/gpt2'',
         Build ''tgi-tests-gpt2-8080-img'', Run ''tgi-tests-gpt2-8080-img'',
         ContainersGet ''tgi-tests-gpt2-8080'', Logs, Generate, Sleep,
         ContainersGet ''tgi-tests-gpt2-8080'', Logs, Generate,
         Stop, Wait, RemoveContainer, RemoveImage], None)
   \<and> count_list (fst (teardown docker_ok (Some ''sha256:0a1b''))) RemoveImage = 1
   \<and> with_docker_launcher host_plain docker_ok ''gpt2'' ''gpt2'' False (check_health env_exits 60)
     = ([ContainersGet ''tgi-tests-gpt2-8080'', Run ''neuronx-tgi:latest'',
         ContainersGet ''tgi-tests-gpt2-8080'', Logs, Print ''boot'', Generate, Sleep,
         ContainersGet ''tgi-tests-gpt2-8080'', Logs, Print ''boot'', Generate, Sleep,
         ContainersGet ''tgi-tests-gpt2-8080'', Logs, Print ''boot''],
        Some (RuntimeError ''Service crashed after 2 seconds.''))"
proof -
  obtain st where st:
    "docker_launcher_enter host_plain docker_ok ''gpt2'' ''/models/gpt2'' False
       = ([ContainersGet ''tgi-tests-gpt2-8080'', CopyTree ''/models/gpt2'',
           Build ''tgi-tests-gpt2-8080-img'', Run ''tgi-tests-gpt2-8080-img''], Inr st)"
    "handle_container_name st = ''tgi-tests-gpt2-8080''" "st_image st = Some ''sha256:0a1b''"
    using enter_local by blast
  obtain su where su:
    "docker_launcher_enter host_plain docker_ok ''gpt2'' ''gpt2'' False
       = ([ContainersGet ''tgi-tests-gpt2-8080'', Run ''neuronx-tgi:latest''], Inr su)"
    "handle_container_name su = ''tgi-tests-gpt2-8080''" "st_image su = None"
    using enter_hub by blast
  have h: "isdir host_plain ''/models/gpt2''" "only_Exception (remove_raises docker_ok)"
    by (simp_all add: host_plain_def docker_ok_def only_Exception_def)
  have ok: "check_health env_ready 60 st
              = ([ContainersGet ''tgi-tests-gpt2-8080'', Logs, Generate, Sleep,
                  ContainersGet ''tgi-tests-gpt2-8080'', Logs, Generate], None)"
    by (simp add: check_health_def st(2) health_env_ready)
  have ko: "check_health env_exits 60 su
              = ([ContainersGet ''tgi-tests-gpt2-8080'', Logs, Print ''boot'', Generate, Sleep,
                  ContainersGet ''tgi-tests-gpt2-8080'', Logs, Print ''boot'', Generate, Sleep,
                  ContainersGet ''tgi-tests-gpt2-8080'', Logs, Print ''boot''],
                 Some (RuntimeError ''Service crashed after 2 seconds.''))"
    by (simp add: check_health_def su(2) health_env_exits)
  show ?thesis
    using teardown_only_on_normal_exit [OF st(1), of "check_health env_ready 60" _ undefined] ok
      teardown_only_on_normal_exit [OF su(1), of "check_health env_exits 60"] ko
    by (simp add: st(3) h teardown_docker_ok)
qed

text \<open>
  The claim as stated fails when the health check raises after the start: the container
  built from a local model directory is neither stopped nor removed, and the image built
  for it stays. On a block that ends normally it fails in two cases: no \<^verbatim>\<open>wait\<close> when
  \<^verbatim>\<open>stop\<close> raised, and no removal of the built image when the removal of the container
  was interrupted from the keyboard.
\<close>

theorem teardown_skipped_counterexample:
  "with_docker_launcher host_plain docker_ok ''gpt2'' ''/models/gpt2'' False
       (check_health env_exits 60)
     = ([ContainersGet ''tgi-tests-gpt2-8080'', CopyTree ''/models/gpt2'',
         Build ''tgi-tests-gpt2-8080-img'', Run ''tgi-tests-gpt2-8080-img'',
         ContainersGet ''tgi-tests-gpt2-8080'', Logs, Print ''boot'', Generate, Sleep,
         ContainersGet ''tgi-tests-gpt2-8080'', Logs, Print ''boot'', Generate, Sleep,
         ContainersGet ''tgi-tests-gpt2-8080'', Logs, Print ''boot''],
        Some (RuntimeError ''Service crashed after 2 seconds.''))
   \<and> filter is_teardown_step
        (fst (with_docker_launcher host_plain docker_ok ''gpt2'' ''/models/gpt2'' False
                (check_health env_exits 60))) = []
   \<and> filter is_teardown_step
        (fst (with_docker_launcher host_plain docker_stop_fails ''gpt2'' ''/models/gpt2'' False
                (check_health env_ready 60))) = [Stop, RemoveContainer, RemoveImage]
   \<and> filter is_teardown_step
        (fst (with_docker_launcher host_plain docker_remove_interrupted ''gpt2'' ''/models/gpt2''
                False (check_health env_ready 60))) = [Stop, Wait, RemoveContainer]"
proof -
  obtain st where st:
    "docker_launcher_enter host_plain docker_ok ''gpt2'' ''/models/gpt2'' False
       = ([ContainersGet ''tgi-tests-gpt2-8080'', CopyTree ''/models/gpt2'',
           Build ''tgi-tests-gpt2-8080-img'', Run ''tgi-tests-gpt2-8080-img''], Inr st)"
    "handle_container_name st = ''tgi-tests-gpt2-8080''"
    using enter_local by blast
  obtain sf where sf:
    "docker_launcher_enter host_plain docker_stop_fails ''gpt2'' ''/models/gpt2'' False
       = ([ContainersGet ''tgi-tests-gpt2-8080'', CopyTree ''/models/gpt2'',
           Build ''tgi-tests-gpt2-8080-img'', Run ''tgi-tests-gpt2-8080-img''], Inr sf)"
    "handle_container_name sf = ''tgi-tests-gpt2-8080''" "st_image sf = Some ''sha256:0a1b''"
    using enter_local_of [of docker_stop_fails]
    by (auto simp: docker_stop_fails_def docker_ok_def)
  obtain sr where sr:
    "docker_launcher_enter host_plain docker_remove_interrupted ''gpt2'' ''/models/gpt2'' False
       = ([ContainersGet ''tgi-tests-gpt2-8080'', CopyTree ''/models/gpt2'',
           Build ''tgi-tests-gpt2-8080-img'', Run ''tgi-tests-gpt2-8080-img''], Inr sr)"
    "handle_container_name sr = ''tgi-tests-gpt2-8080''" "st_image sr = Some ''sha256:0a1b''"
    using enter_local_of [of docker_remove_interrupted]
    by (auto simp: docker_remove_interrupted_def docker_ok_def)
  have t: "teardown docker_stop_fails (Some ''sha256:0a1b'')
             = ([Stop, LogException (OtherException ''read timed out''),
                 RemoveContainer, LogError, LogException (OtherException ''conflict''),
                 RemoveImage], None)"
    "teardown docker_remove_interrupted (Some ''sha256:0a1b'')
             = ([Stop, Wait, RemoveContainer], Some (BaseOnly ''KeyboardInterrupt''))"
    by (simp_all add: teardown_def stop_and_wait_def remove_container_def remove_image_def
        docker_stop_fails_def docker_remove_interrupted_def docker_ok_def)
  have 1: "with_docker_launcher host_plain docker_ok ''gpt2'' ''/models/gpt2'' False
       (check_health env_exits 60)
     = ([ContainersGet ''tgi-tests-gpt2-8080'', CopyTree ''/models/gpt2'',
         Build ''tgi-tests-gpt2-8080-img'', Run ''tgi-tests-gpt2-8080-img'',
         ContainersGet ''tgi-tests-gpt2-8080'', Logs, Print ''boot'', Generate, Sleep,
         ContainersGet ''tgi-tests-gpt2-8080'', Logs, Print ''boot'', Generate, Sleep,
         ContainersGet ''tgi-tests-gpt2-8080'', Logs, Print ''boot''],
        Some (RuntimeError ''Service crashed after 2 seconds.''))"
    by (simp add: with_docker_launcher_def st check_health_def health_env_exits
        docker_launcher_exit_def)
  have 2: "filter is_teardown_step
        (fst (with_docker_launcher host_plain docker_stop_fails ''gpt2'' ''/models/gpt2'' False
                (check_health env_ready 60))) = [Stop, RemoveContainer, RemoveImage]"
    by (simp add: with_docker_launcher_def sf check_health_def health_env_ready
        docker_launcher_exit_def t)
  have 3: "filter is_teardown_step
        (fst (with_docker_launcher host_plain docker_remove_interrupted ''gpt2'' ''/models/gpt2''
                False (check_health env_ready 60))) = [Stop, Wait, RemoveContainer]"
    by (simp add: with_docker_launcher_def sr check_health_def health_env_ready
        docker_launcher_exit_def t)
  from 1 2 3 show ?thesis by simp
qed

section \<open>Properties of the container's environment\<close>









section \<open>Properties of the choice of the image\<close>

text \<open>
  The decimal rendering of a number has digits only and tells the number, so the tag of a
  built image tells the service name and the port: the last dash before \<^verbatim>\<open>-img\<close>
  separates them.
\<close>

lemma digit_char_inj: "a < 10 \<Longrightarrow> b < 10 \<Longrightarrow> digit_char a = digit_char b \<Longrightarrow> a = b"
proof -
  assume a: "a < 10" and b: "b < 10" and e: "digit_char a = digit_char b"
  have d: "distinct ''0123456789''" by simp
  have "a < length ''0123456789''" "b < length ''0123456789''" using a b by simp_all
  with d e show "a = b" unfolding digit_char_def by (simp only: nth_eq_iff_index_eq)
qed

lemma digit_char_digit: "d < 10 \<Longrightarrow> digit_char d \<in> set ''0123456789''"
  unfolding digit_char_def by (rule nth_mem) simp

lemma str_nat_not_empty: "str_nat n \<noteq> []"
  by (subst str_nat.simps) simp

lemma str_nat_digits: "set (str_nat n) \<subseteq> set ''0123456789''"
proof (induction n rule: str_nat.induct)
  case (1 n)
  show ?case
  proof (cases "n < 10")
    case True
    then show ?thesis using digit_char_digit [of n] by (subst str_nat.simps) simp
  next
    case False
    have "n mod 10 < 10" by simp
    then have "digit_char (n mod 10) \<in> set ''0123456789''" by (rule digit_char_digit)
    with False 1 show ?thesis by (subst str_nat.simps) simp
  qed
qed

lemma str_nat_no_dash: "CHR ''-'' \<notin> set (str_nat n)"
  using str_nat_digits [of n] by auto

lemma str_nat_inj: "str_nat a = str_nat b \<Longrightarrow> a = b"
proof (induction a arbitrary: b rule: str_nat.induct)
  case (1 a)
  show ?case
  proof (cases "a < 10")
    case a: True
    show ?thesis
    proof (cases "b < 10")
      case True
      with a 1(2) show ?thesis
        by (simp add: str_nat.simps [of a] str_nat.simps [of b] digit_char_inj)
    next
      case False
      with a 1(2) str_nat_not_empty [of "b div 10"] show ?thesis
        by (simp add: str_nat.simps [of a] str_nat.simps [of b])
    qed
  next
    case a: False
    show ?thesis
    proof (cases "b < 10")
      case True
      with a 1(2) str_nat_not_empty [of "a div 10"] show ?thesis
        by (simp add: str_nat.simps [of a] str_nat.simps [of b])
    next
      case False
      with a 1(2) have e: "str_nat (a div 10) = str_nat (b div 10)"
        "digit_char (a mod 10) = digit_char (b mod 10)"
        by (simp_all add: str_nat.simps [of a] str_nat.simps [of b])
      from 1(1) [OF a e(1)] have "a div 10 = b div 10" .
      moreover from e(2) have "a mod 10 = b mod 10" by (intro digit_char_inj) simp_all
      ultimately show ?thesis by (metis div_mult_mod_eq)
    qed
  qed
qed

lemma split_at_last:
  "xs @ c # ds = xs' @ c # ds' \<Longrightarrow> c \<notin> set ds \<Longrightarrow> c \<notin> set ds' \<Longrightarrow> xs = xs' \<and> ds = ds'"
  by (auto simp: append_eq_append_conv2 append_eq_Cons_conv Cons_eq_append_conv)

lemma docker_tag_inj:
  assumes "container_name_of s p @ ''-img'' = container_name_of s' p' @ ''-img''"
  shows "s = s' \<and> p = p'"
proof -
  from assms have "s @ CHR ''-'' # str_nat p = s' @ CHR ''-'' # str_nat p'"
    by (simp add: container_name_of_def)
  then have "s = s' \<and> str_nat p = str_nat p'"
    by (rule split_at_last) (rule str_nat_no_dash)+
  then show ?thesis using str_nat_inj by blast
qed


lemma stale_cleanup_no_build: "Build tag \<notin> set (fst (stale_cleanup d name))"
  by (simp add: stale_cleanup_def split: option.splits)

text \<open>
  Claim C8. After a successful start: for a model reference that is a directory, an image
  was built, tagged \<^verbatim>\<open>tgi-tests-{service_name}-{port}-img\<close>, a tag that holds the
  service name and the port and that no other pair of service name and port gives; the
  container runs from that image. For any other reference no image is built, the container
  runs from the base image as it is, and its \<^verbatim>\<open>--model-id\<close> argument is the reference.
\<close>

theorem image_choice:
  assumes "docker_launcher_enter h d service_name model_name_or_path trust_remote_code
             = (evs, Inr st)"
  shows "(isdir h model_name_or_path \<longrightarrow>
            st_docker_tag st
              = ''tgi-tests-'' @ service_name @ ''-'' @ str_nat (randint h) @ ''-img''
          \<and> sublist service_name (st_docker_tag st)
          \<and> sublist (str_nat (randint h)) (st_docker_tag st)
          \<and> (\<exists>image_id. build_result d = Inr image_id \<and> st_image st = Some image_id)
          \<and> Build (st_docker_tag st) \<in> set evs
          \<and> st_container_model_id st = ''/data/'' @ model_name_or_path)
       \<and> (\<not> isdir h model_name_or_path \<longrightarrow>
            st_docker_tag st = DOCKER_IMAGE h
          \<and> st_image st = None
          \<and> (\<forall>tag. Build tag \<notin> set evs)
          \<and> st_container_model_id st = model_name_or_path
          \<and> take 3 (st_args st) = [''--model-id'', model_name_or_path, ''--env''])
       \<and> last evs = Run (st_docker_tag st)
       \<and> (\<forall>s p. container_name_of service_name (randint h) @ ''-img''
                   = container_name_of s p @ ''-img''
                 \<longrightarrow> service_name = s \<and> randint h = p)"
proof -
  let ?name = "container_name_of service_name (randint h)"
  obtain evs1 where c: "stale_cleanup d ?name = (evs1, None)"
    using assms by (auto simp: docker_launcher_enter_def Let_def split: prod.splits option.splits)
  obtain evs2 tag img mid where i:
    "choose_image h d ?name model_name_or_path = (evs2, Inr (tag, img, mid))"
    using assms c
    by (auto simp: docker_launcher_enter_def Let_def split: prod.splits sum.splits)
  have st: "st_docker_tag st = tag" "st_image st = img" "st_container_model_id st = mid"
    "st_args st = [''--model-id'', mid, ''--env'']
                    @ (if trust_remote_code then [''--trust-remote-code''] else [])"
    "evs = evs1 @ evs2 @ [Run tag]"
    using assms c i
    by (auto simp: docker_launcher_enter_def Let_def split: sum.splits)
  have nb: "\<And>t. Build t \<notin> set evs1"
    using stale_cleanup_no_build [of _ d ?name] c by simp
  have dir: "tag = ?name @ ''-img''
             \<and> (\<exists>image_id. build_result d = Inr image_id \<and> img = Some image_id)
             \<and> Build tag \<in> set evs2 \<and> mid = ''/data/'' @ model_name_or_path"
    if "isdir h model_name_or_path"
    using i that by (auto simp: choose_image_def Let_def split: option.splits sum.splits)
  have hub: "tag = DOCKER_IMAGE h \<and> img = None \<and> evs2 = [] \<and> mid = model_name_or_path"
    if "\<not> isdir h model_name_or_path"
    using i that by (simp add: choose_image_def)
  have sub: "sublist service_name (?name @ ''-img'')"
    "sublist (str_nat (randint h)) (?name @ ''-img'')"
  proof -
    have "?name @ ''-img'' = ''tgi-tests-'' @ service_name @ (''-'' @ str_nat (randint h) @ ''-img'')"
      by (simp add: container_name_of_def)
    then show "sublist service_name (?name @ ''-img'')"
      by (simp only: sublist_appendI)
    have "?name @ ''-img'' = (''tgi-tests-'' @ service_name @ ''-'') @ str_nat (randint h) @ ''-img''"
      by (simp add: container_name_of_def)
    then show "sublist (str_nat (randint h)) (?name @ ''-img'')"
      by (simp only: sublist_appendI)
  qed
  have name: "?name @ ''-img'' = ''tgi-tests-'' @ service_name @ ''-'' @ str_nat (randint h) @ ''-img''"
    by (simp add: container_name_of_def)
  show ?thesis
    using dir hub sub nb docker_tag_inj [of service_name "randint h"]
    by (auto simp: st name)
qed

theorem image_choice_witness:
  "(\<exists>evs st. docker_launcher_enter host_plain docker_ok ''gpt2'' ''/models/gpt2'' False
                 = (evs, Inr st)
             \<and> st_docker_tag st = ''tgi-tests-gpt2-8080-img''
             \<and> st_image st = Some ''sha256:0a1b''
             \<and> st_container_model_id st = ''/data//models/gpt2'')
   \<and> (\<exists>evs st. docker_launcher_enter host_plain docker_ok ''gpt2'' ''gpt2'' True
                 = (evs, Inr st)
             \<and> st_docker_tag st = ''neuronx-tgi:latest''
             \<and> st_image st = None
             \<and> st_container_model_id st = ''gpt2''
             \<and> take 3 (st_args st) = [''--model-id'', ''gpt2'', ''--env''])"
proof -
  have h: "isdir host_plain ''/models/gpt2''" "\<not> isdir host_plain ''gpt2''"
    "randint host_plain = 8080" "DOCKER_IMAGE host_plain = ''neuronx-tgi:latest''"
    "build_result docker_ok = Inr ''sha256:0a1b''"
    by (simp_all add: host_plain_def docker_ok_def DOCKER_IMAGE_def)
  obtain evs1 st1 where 1:
    "docker_launcher_enter host_plain docker_ok ''gpt2'' ''/models/gpt2'' False = (evs1, Inr st1)"
    using enter_local by blast
  obtain evs2 st2 where 2:
    "docker_launcher_enter host_plain docker_ok ''gpt2'' ''gpt2'' True = (evs2, Inr st2)"
    by (simp add: docker_launcher_enter_def stale_cleanup_def except_NotFound_def choose_image_def
        host_plain_def docker_ok_def Let_def)
  have a: "st_docker_tag st1 = ''tgi-tests-gpt2-8080-img'' \<and> st_image st1 = Some ''sha256:0a1b''
           \<and> st_container_model_id st1 = ''/data//models/gpt2''"
    using image_choice [OF 1] by (simp add: h str_nat_8080)
  have b: "st_docker_tag st2 = ''neuronx-tgi:latest'' \<and> st_image st2 = None
           \<and> st_container_model_id st2 = ''gpt2''
           \<and> take 3 (st_args st2) = [''--model-id'', ''gpt2'', ''--env'']"
    using image_choice [OF 2] by (simp add: h)
  from 1 2 a b show ?thesis by blast
qed

section \<open>Properties of the load generator\<close>

lemma first_raised_mem: "first_raised fs = Some (t, e) \<Longrightarrow> (t, Inl e) \<in> set fs"
proof (induction fs arbitrary: t e rule: first_raised.induct)
  case 1
  then show ?case by simp
next
  case (2 t' v fs)
  then show ?case by simp
next
  case (3 t' e' fs)
  then show ?case by (auto split: option.splits if_splits)
qed

lemma first_raised_None: "first_raised fs = None \<longleftrightarrow> (\<forall>f \<in> set fs. \<exists>v. snd f = Inr v)"
  by (induction fs rule: first_raised.induct) (auto split: option.splits)

lemma returned_values_all:
  "\<forall>f \<in> set fs. \<exists>v. snd f = Inr v \<Longrightarrow> map Inr (returned_values fs) = map snd fs"
  by (induction fs rule: returned_values.induct) auto

lemma gather_all_returned:
  assumes "\<forall>f \<in> set fs. \<exists>v. snd f = Inr v"
  shows "\<exists>rs. gather fs = Inr rs \<and> length rs = length fs
              \<and> (\<forall>i<length fs. snd (fs ! i) = Inr (rs ! i))"
proof -
  have n: "first_raised fs = None" using assms by (simp add: first_raised_None)
  have m: "map Inr (returned_values fs) = map snd fs"
    using assms by (rule returned_values_all)
  then have l: "length (returned_values fs) = length fs"
    by (metis length_map)
  have "snd (fs ! i) = Inr (returned_values fs ! i)" if "i < length fs" for i
  proof -
    have "map snd fs ! i = map Inr (returned_values fs) ! i" using m by simp
    with that l show ?thesis by simp
  qed
  with n l show ?thesis by (simp add: gather_def)
qed

lemma gather_one_raised:
  assumes "f \<in> set fs" and "snd f = Inl e"
  shows "\<exists>t e'. (t, Inl e') \<in> set fs \<and> gather fs = Inl e'"
proof -
  have "\<not> (\<exists>v. snd f = Inr v)" using assms(2) by simp
  with assms(1) have "first_raised fs \<noteq> None" unfolding first_raised_None by blast
  then obtain t e' where r: "first_raised fs = Some (t, e')" by auto
  with first_raised_mem [OF r] show ?thesis by (auto simp: gather_def)
qed

lemma list_of_four: "length rs = 4 \<Longrightarrow> rs = [rs ! 0, rs ! 1, rs ! 2, rs ! 3]"
  by (auto simp: list_eq_iff_nth_eq less_Suc_eq numeral_eq_Suc nth_Cons')

text \<open>
  Claim C2, as amended. For every \<open>n\<close>, when each of the \<open>n\<close> requests succeeds,
  \<^verbatim>\<open>generate_load_inner\<close> returns exactly \<open>n\<close> responses, the one at index \<open>i\<close> being
  that of the request submitted \<open>i\<close>-th, whatever the order of completion. When any of the
  requests fails, it returns no list: it raises the exception of one of the failed requests.
\<close>

theorem generate_load_all_or_nothing:
  "((\<forall>i<nat n. \<exists>v. snd (client prompt max_new_tokens True i) = Inr v) \<longrightarrow>
      (\<exists>rs. generate_load_inner client prompt max_new_tokens n = Inr rs
           \<and> length rs = nat n
           \<and> (\<forall>i<nat n. snd (client prompt max_new_tokens True i) = Inr (rs ! i))))
   \<and> ((\<exists>i<nat n. \<exists>e. snd (client prompt max_new_tokens True i) = Inl e) \<longrightarrow>
      (\<exists>i<nat n. \<exists>e. snd (client prompt max_new_tokens True i) = Inl e
           \<and> generate_load_inner client prompt max_new_tokens n = Inl e))"
proof (intro conjI impI)
  let ?fs = "map (client prompt max_new_tokens True) [0..<nat n]"
  {
    assume a: "\<forall>i<nat n. \<exists>v. snd (client prompt max_new_tokens True i) = Inr v"
    then have all: "\<forall>f \<in> set ?fs. \<exists>v. snd f = Inr v" by auto
    from gather_all_returned [OF all]
    show "\<exists>rs. generate_load_inner client prompt max_new_tokens n = Inr rs
           \<and> length rs = nat n
           \<and> (\<forall>i<nat n. snd (client prompt max_new_tokens True i) = Inr (rs ! i))"
      by (simp add: generate_load_inner_def)
  }
  {
    assume "\<exists>i<nat n. \<exists>e. snd (client prompt max_new_tokens True i) = Inl e"
    then obtain i e where i: "i < nat n" "snd (client prompt max_new_tokens True i) = Inl e"
      by blast
    then have mem: "client prompt max_new_tokens True i \<in> set ?fs" by simp
    from gather_one_raised [OF mem i(2)]
    obtain t e' where r: "(t, Inl e') \<in> set ?fs" "gather ?fs = Inl e'" by blast
    from r(1) obtain j where "j < nat n" "client prompt max_new_tokens True j = (t, Inl e')"
      by auto
    with r(2) show "\<exists>i<nat n. \<exists>e. snd (client prompt max_new_tokens True i) = Inl e
           \<and> generate_load_inner client prompt max_new_tokens n = Inl e"
      by (auto simp: generate_load_inner_def)
  }
qed

theorem generate_load_all_or_nothing_witness:
  "generate_load_inner client_ok ''hi'' 20 4 = Inr [''hi0'', ''hi1'', ''hi2'', ''hi3'']
   \<and> (\<exists>e. generate_load_inner client_flaky ''hi'' 20 4 = Inl e)"
proof -
  have ok: "\<forall>i<nat 4. \<exists>v. snd (client_ok ''hi'' 20 True i) = Inr v"
    by (simp add: client_ok_def)
  have ko: "\<exists>i<nat 4. \<exists>e. snd (client_flaky ''hi'' 20 True i) = Inl e"
    by (rule exI [of _ 1]) (simp add: client_flaky_def)
  from generate_load_all_or_nothing [of 4 client_ok "''hi''" 20] ok
  obtain rs where rs: "generate_load_inner client_ok ''hi'' 20 4 = Inr rs" "length rs = nat 4"
    "\<forall>i<nat 4. snd (client_ok ''hi'' 20 True i) = Inr (rs ! i)"
    by blast
  have s: "str_nat 0 = ''0''" "str_nat 1 = ''1''" "str_nat 2 = ''2''" "str_nat 3 = ''3''"
    by (simp_all add: str_nat.simps digit_char_def)
  have s1: "str_nat (Suc 0) = ''1''" using s(2) by simp
  have v: "snd (client_ok ''hi'' 20 True 0) = Inr ''hi0''"
    "snd (client_ok ''hi'' 20 True 1) = Inr ''hi1''"
    "snd (client_ok ''hi'' 20 True 2) = Inr ''hi2''"
    "snd (client_ok ''hi'' 20 True 3) = Inr ''hi3''"
    by (simp_all add: client_ok_def s s1)
  have i: "(0::nat) < nat 4" "(1::nat) < nat 4" "(2::nat) < nat 4" "(3::nat) < nat 4"
    by simp_all
  have e0: "rs ! 0 = ''hi0''" using rs(3) [rule_format, OF i(1)] v(1) by simp
  have e1: "rs ! 1 = ''hi1''" using rs(3) [rule_format, OF i(2)] v(2) by simp
  have e2: "rs ! 2 = ''hi2''" using rs(3) [rule_format, OF i(3)] v(3) by simp
  have e3: "rs ! 3 = ''hi3''" using rs(3) [rule_format, OF i(4)] v(4) by simp
  from e0 e1 e2 e3
  have "rs = [''hi0'', ''hi1'', ''hi2'', ''hi3'']"
    using list_of_four [of rs] rs(2) by simp
  with rs(1) generate_load_all_or_nothing [of 4 client_flaky "''hi''" 20] ko
  show ?thesis by blast
qed

text \<open>
  The claim as stated fails as soon as one request fails: of four requests two succeed and
  two fail, and the caller gets the exception of the one that failed first, and none of
  the four outcomes.
\<close>

theorem generate_load_raises_counterexample:
  "generate_load_inner client_flaky ''hi'' 20 4 = Inl (OtherException ''429 Too Many Requests'')"
proof -
  have u: "[0..<4] = [0, 1, 2, 3]" by (simp add: upt_rec)
  show ?thesis
    by (simp add: generate_load_inner_def gather_def u client_flaky_def)
qed

end
